theory Spec2Isabelle
  imports Complex_Main "HOL-Library.Log_Nat"
begin

section \<open>Values and the data model\<close>

text \<open>
  The web client of TraceBrain is TypeScript. Attribute bags are
  \<^verbatim>\<open>Record<string, any>\<close> filled from JSON, so an attribute value is a JSON value or
  \<^verbatim>\<open>undefined\<close> (key absent). JSON numbers are finite, hence \<open>JNum\<close> carries a real. An
  object is the list of its own properties, each key once.
\<close>

datatype jsval =
    JUndefined
  | JNull
  | JBool bool
  | JNum real
  | JStr string
  | JArr "jsval list"
  | JObj "(string \<times> jsval) list"

text \<open>JavaScript truthiness (\<^verbatim>\<open>!!v\<close>) of a JSON value.\<close>

fun truthy :: "jsval \<Rightarrow> bool" where
  "truthy JUndefined = False"
| "truthy JNull = False"
| "truthy (JBool b) = b"
| "truthy (JNum r) = (r \<noteq> 0)"
| "truthy (JStr s) = (s \<noteq> [])"
| "truthy (JArr xs) = True"
| "truthy (JObj kvs) = True"

text \<open>
  Optional chaining \<^verbatim>\<open>v?.k\<close> for a named data property \<open>k\<close>: \<^verbatim>\<open>undefined\<close> when \<open>v\<close> is
  \<^verbatim>\<open>undefined\<close> or \<^verbatim>\<open>null\<close>, the member of an object, and \<^verbatim>\<open>undefined\<close> for a member a
  primitive or an array does not have.
\<close>

fun opt_member :: "jsval \<Rightarrow> string \<Rightarrow> jsval" where
  "opt_member (JObj kvs) k = (case map_of kvs k of None \<Rightarrow> JUndefined | Some v \<Rightarrow> v)"
| "opt_member v k = JUndefined"

text \<open>Reading \<^verbatim>\<open>bag[k]\<close> from a \<^verbatim>\<open>Record<string, any>\<close>: a missing key reads as \<^verbatim>\<open>undefined\<close>.\<close>

definition bag_get :: "(string \<rightharpoonup> jsval) \<Rightarrow> string \<Rightarrow> jsval" where
  "bag_get bag k = (case bag k of None \<Rightarrow> JUndefined | Some v \<Rightarrow> v)"

text \<open>The interfaces of \<^verbatim>\<open>types/trace.ts\<close>. A \<^verbatim>\<open>null\<close> \<open>parent_id\<close> is \<open>None\<close>.\<close>

record Span =
  span_id :: string
  parent_id :: "string option"
  name :: string
  start_time :: string
  end_time :: string
  attributes :: "string \<rightharpoonup> jsval"

record Feedback =
  rating :: "real option"
  comment :: "string option"
  tags :: "string list option"
  timestamp :: "string option"
  metadata :: "(string \<rightharpoonup> jsval) option"

record Trace =
  trace_id :: string
  created_at :: string
  feedbacks :: "Feedback list"
  attributes :: "string \<rightharpoonup> jsval"
  spans :: "Span list"

record Episode =
  episode_id :: string
  traces :: "Trace list"

text \<open>
  A JavaScript number held in client state: a double, modelled as an extended real with
  \<open>NaN\<close>. Rounding error of double arithmetic is not modelled.
\<close>

datatype jsnum = NaN | PosInf | NegInf | Fin real


section \<open>Trace accessors (\<^verbatim>\<open>utils/traceUtils.ts\<close>)\<close>

definition traceGetStatus :: "Trace \<Rightarrow> jsval" where
  "traceGetStatus trace = bag_get (Trace.attributes trace) ''tracebrain.trace.status''"

definition traceGetEvaluation :: "Trace \<Rightarrow> jsval" where
  "traceGetEvaluation trace = bag_get (Trace.attributes trace) ''tracebrain.ai_evaluation''"

text \<open>
  \<^verbatim>\<open>if (!trace?.feedbacks?.length) return null; return trace.feedbacks[0];\<close>
  The result \<^verbatim>\<open>null\<close> is \<open>None\<close>.
\<close>

definition traceGetLatestFeedback :: "Trace \<Rightarrow> Feedback option" where
  "traceGetLatestFeedback trace =
     (if length (feedbacks trace) = 0 then None else Some (feedbacks trace ! 0))"

definition empty_trace :: Trace where
  "empty_trace = \<lparr>trace_id = ''T1'', created_at = ''2024-01-01T10:00:00Z'', feedbacks = [],
     attributes = Map.empty, spans = []\<rparr>"

definition feedback_first :: Feedback where
  "feedback_first = \<lparr>rating = Some 1, comment = Some ''wrong tool'', tags = None,
     timestamp = Some ''2024-01-01T10:01:00Z'', metadata = None\<rparr>"

definition feedback_second :: Feedback where
  "feedback_second = \<lparr>rating = Some 5, comment = Some ''fixed'', tags = None,
     timestamp = Some ''2024-01-02T09:00:00Z'', metadata = None\<rparr>"


section \<open>Trace filters (\<^verbatim>\<open>explorer/types.ts\<close>, \<^verbatim>\<open>FiltersPanel\<close>, \<^verbatim>\<open>TraceFiltersPanel\<close>)\<close>

record TraceFilters =
  status :: string
  errorType :: string
  minRating :: "jsnum option"
  minConfidence :: "jsnum option"
  maxConfidence :: "jsnum option"
  startTime :: string
  endTime :: string

definition DEFAULT_TRACE_FILTERS :: TraceFilters where
  "DEFAULT_TRACE_FILTERS = \<lparr>status = '''', errorType = '''', minRating = None,
     minConfidence = None, maxConfidence = None, startTime = '''', endTime = ''''\<rparr>"

text \<open>
  \<^verbatim>\<open>Partial<TraceFilters>\<close>: every key may be absent (\<open>None\<close>). A present key of a nullable
  field carries the new value, which may be \<^verbatim>\<open>null\<close> (\<open>Some None\<close>).
\<close>

record TraceFiltersPatch =
  patch_status :: "string option"
  patch_errorType :: "string option"
  patch_minRating :: "jsnum option option"
  patch_minConfidence :: "jsnum option option"
  patch_maxConfidence :: "jsnum option option"
  patch_startTime :: "string option"
  patch_endTime :: "string option"

definition no_patch :: TraceFiltersPatch where
  "no_patch = \<lparr>patch_status = None, patch_errorType = None, patch_minRating = None,
     patch_minConfidence = None, patch_maxConfidence = None, patch_startTime = None,
     patch_endTime = None\<rparr>"

text \<open>
  \<^verbatim>\<open>const set = (patch) => onChange({ ...filters, ...patch })\<close>: the value is the object
  handed to \<^verbatim>\<open>onChange\<close>, the next filter state. A key of the patch overrides the key of
  \<open>filters\<close>.
\<close>

definition set_filters :: "TraceFilters \<Rightarrow> TraceFiltersPatch \<Rightarrow> TraceFilters" where
  "set_filters filters patch =
     \<lparr>status = (case patch_status patch of None \<Rightarrow> status filters | Some v \<Rightarrow> v),
      errorType = (case patch_errorType patch of None \<Rightarrow> errorType filters | Some v \<Rightarrow> v),
      minRating = (case patch_minRating patch of None \<Rightarrow> minRating filters | Some v \<Rightarrow> v),
      minConfidence =
        (case patch_minConfidence patch of None \<Rightarrow> minConfidence filters | Some v \<Rightarrow> v),
      maxConfidence =
        (case patch_maxConfidence patch of None \<Rightarrow> maxConfidence filters | Some v \<Rightarrow> v),
      startTime = (case patch_startTime patch of None \<Rightarrow> startTime filters | Some v \<Rightarrow> v),
      endTime = (case patch_endTime patch of None \<Rightarrow> endTime filters | Some v \<Rightarrow> v)\<rparr>"

text \<open>
  The \<^verbatim>\<open>onClear\<close> handlers of the five filter chips. The confidence chip also empties its
  two text boxes (\<^verbatim>\<open>setMinRaw("")\<close>, \<^verbatim>\<open>setMaxRaw("")\<close>), which are local input buffers and
  not part of the filter state.
\<close>

definition status_onClear :: "TraceFilters \<Rightarrow> TraceFilters" where
  "status_onClear filters = set_filters filters (no_patch\<lparr>patch_status := Some ''''\<rparr>)"

definition errorType_onClear :: "TraceFilters \<Rightarrow> TraceFilters" where
  "errorType_onClear filters = set_filters filters (no_patch\<lparr>patch_errorType := Some ''''\<rparr>)"

definition minRating_onClear :: "TraceFilters \<Rightarrow> TraceFilters" where
  "minRating_onClear filters = set_filters filters (no_patch\<lparr>patch_minRating := Some None\<rparr>)"

definition confidence_onClear :: "TraceFilters \<Rightarrow> TraceFilters" where
  "confidence_onClear filters =
     set_filters filters
       (no_patch\<lparr>patch_minConfidence := Some None, patch_maxConfidence := Some None\<rparr>)"

definition dateRange_onClear :: "TraceFilters \<Rightarrow> TraceFilters" where
  "dateRange_onClear filters =
     set_filters filters (no_patch\<lparr>patch_startTime := Some '''', patch_endTime := Some ''''\<rparr>)"

text \<open>
  The \<^verbatim>\<open>active\<close> flag of each chip: \<^verbatim>\<open>!!filters.status\<close>, \<^verbatim>\<open>!!filters.errorType\<close>,
  \<^verbatim>\<open>filters.minRating != null\<close>, \<^verbatim>\<open>confActive\<close> and \<^verbatim>\<open>dateActive\<close>.
\<close>

definition statusActive :: "TraceFilters \<Rightarrow> bool" where
  "statusActive filters = (status filters \<noteq> [])"

definition errorTypeActive :: "TraceFilters \<Rightarrow> bool" where
  "errorTypeActive filters = (errorType filters \<noteq> [])"

definition minRatingActive :: "TraceFilters \<Rightarrow> bool" where
  "minRatingActive filters = (minRating filters \<noteq> None)"

definition confActive :: "TraceFilters \<Rightarrow> bool" where
  "confActive filters = (minConfidence filters \<noteq> None \<or> maxConfidence filters \<noteq> None)"

definition dateActive :: "TraceFilters \<Rightarrow> bool" where
  "dateActive filters = (startTime filters \<noteq> [] \<or> endTime filters \<noteq> [])"

text \<open>The condition under which the panel renders its \<^verbatim>\<open>Clear all\<close> button.\<close>

definition clearAllShown :: "TraceFilters \<Rightarrow> bool" where
  "clearAllShown filters =
     (statusActive filters \<or> errorTypeActive filters \<or> minRatingActive filters \<or>
      confActive filters \<or> dateActive filters)"

text \<open>The object the \<^verbatim>\<open>Clear all\<close> button hands to \<^verbatim>\<open>onChange\<close>.\<close>

definition clearAll_onClick :: "TraceFilters \<Rightarrow> TraceFilters" where
  "clearAll_onClick filters = \<lparr>status = '''', errorType = '''', minRating = None,
     minConfidence = None, maxConfidence = None, startTime = '''', endTime = ''''\<rparr>"

definition filters_failed_only :: TraceFilters where
  "filters_failed_only = \<lparr>status = ''failed'', errorType = '''', minRating = None,
     minConfidence = None, maxConfidence = None, startTime = '''', endTime = ''''\<rparr>"

text \<open>
  Modelled from the spec: applying a filter to the stored traces (\<^verbatim>\<open>TraceStore.list\<close>) is
  server code and not among the sources, which only build the filter record. Section 4.2
  gives the vocabulary, composable with implicit AND: status, error type, minimum
  rating, confidence range [min, max], time range [start, end]; filters read from the
  attribute map; absence of a filter means "no constraint", not "match empty". A field
  of the record is an absent filter when it holds what the panel shows as unset, the
  empty string or \<^verbatim>\<open>null\<close>; every other field is one constraint. How a single constraint
  is tested against a trace the spec leaves to the store: it is the parameter \<open>holds\<close>.
\<close>

datatype constraint =
    StatusIs string
  | ErrorTypeIs string
  | RatingAtLeast jsnum
  | ConfidenceAtLeast jsnum
  | ConfidenceAtMost jsnum
  | StartsAtOrAfter string
  | EndsAtOrBefore string

definition constraints_of :: "TraceFilters \<Rightarrow> constraint list" where
  "constraints_of filters =
     (if status filters = [] then [] else [StatusIs (status filters)])
     @ (if errorType filters = [] then [] else [ErrorTypeIs (errorType filters)])
     @ (case minRating filters of None \<Rightarrow> [] | Some r \<Rightarrow> [RatingAtLeast r])
     @ (case minConfidence filters of None \<Rightarrow> [] | Some c \<Rightarrow> [ConfidenceAtLeast c])
     @ (case maxConfidence filters of None \<Rightarrow> [] | Some c \<Rightarrow> [ConfidenceAtMost c])
     @ (if startTime filters = [] then [] else [StartsAtOrAfter (startTime filters)])
     @ (if endTime filters = [] then [] else [EndsAtOrBefore (endTime filters)])"

definition filter_matches ::
  "(constraint \<Rightarrow> Trace \<Rightarrow> bool) \<Rightarrow> TraceFilters \<Rightarrow> Trace \<Rightarrow> bool" where
  "filter_matches holds filters trace = list_all (\<lambda>c. holds c trace) (constraints_of filters)"

text \<open>
  Modelled from the spec: the one test its scenario fixes, \<^verbatim>\<open>list(filter={status:"completed"})\<close>
  excludes a trace until its status attribute is set accordingly. The other constraints
  are not tested by \<open>status_test\<close>.
\<close>

definition status_test :: "constraint \<Rightarrow> Trace \<Rightarrow> bool" where
  "status_test c trace = (case c of StatusIs s \<Rightarrow> traceGetStatus trace = JStr s | _ \<Rightarrow> True)"

definition failed_trace :: Trace where
  "failed_trace = \<lparr>trace_id = ''T2'', created_at = ''2024-01-01T10:00:00Z'', feedbacks = [],
     attributes = [''tracebrain.trace.status'' \<mapsto> JStr ''failed''], spans = []\<rparr>"


section \<open>Confidence colours\<close>

datatype severity = Success | Warning | Error

text \<open>
  \<^verbatim>\<open>dashboard/ConfidenceIndicator.tsx\<close>: the \<^verbatim>\<open>color\<close> prop of the progress bar,
  \<^verbatim>\<open>confidence < 0.2 ? "error" : confidence < 0.8 ? "warning" : "success"\<close>.
\<close>

definition progressColor :: "real \<Rightarrow> string" where
  "progressColor confidence =
     (if confidence < 0.2 then ''error'' else if confidence < 0.8 then ''warning''
      else ''success'')"

text \<open>
  \<^verbatim>\<open>trace/AIEvaluation.tsx\<close>: the \<^verbatim>\<open>bgcolor\<close> of the confidence bar.
\<close>

definition barColor :: "real \<Rightarrow> string" where
  "barColor confidence =
     (if confidence \<ge> 0.8 then ''success.main''
      else if confidence \<ge> 0.5 then ''warning.main''
      else ''error.main'')"

text \<open>
  The severity a colour names: a palette colour (\<^verbatim>\<open>"error"\<close>) or its main shade
  (\<^verbatim>\<open>"error.main"\<close>).
\<close>

definition severity_of :: "string \<Rightarrow> severity option" where
  "severity_of colour =
     (if colour = ''success'' \<or> colour = ''success.main'' then Some Success
      else if colour = ''warning'' \<or> colour = ''warning.main'' then Some Warning
      else if colour = ''error'' \<or> colour = ''error.main'' then Some Error
      else None)"


section \<open>Span accessors (\<^verbatim>\<open>utils/spanUtils.ts\<close>)\<close>

definition spanGetType :: "Span \<Rightarrow> jsval" where
  "spanGetType sp = bag_get (Span.attributes sp) ''tracebrain.span.type''"

definition spanGetToolName :: "Span \<Rightarrow> jsval" where
  "spanGetToolName sp = bag_get (Span.attributes sp) ''tracebrain.tool.name''"

definition spanHasError :: "Span \<Rightarrow> bool" where
  "spanHasError sp = (bag_get (Span.attributes sp) ''otel.status_code'' = JStr ''ERROR'')"

definition spanGetUsage :: "Span \<Rightarrow> jsval" where
  "spanGetUsage sp = bag_get (Span.attributes sp) ''tracebrain.usage''"

definition spanGetInput :: "Span \<Rightarrow> jsval" where
  "spanGetInput sp =
     (let type = spanGetType sp
      in if type = JStr ''llm_inference''
         then bag_get (Span.attributes sp) ''tracebrain.llm.new_content''
         else bag_get (Span.attributes sp) ''tracebrain.tool.input'')"

definition spanGetOutput :: "Span \<Rightarrow> jsval" where
  "spanGetOutput sp =
     (let type = spanGetType sp
      in if type = JStr ''llm_inference''
         then bag_get (Span.attributes sp) ''tracebrain.llm.completion''
         else bag_get (Span.attributes sp) ''tracebrain.tool.output'')"

definition spanGetSystemPrompt :: "Span \<Rightarrow> jsval" where
  "spanGetSystemPrompt sp = bag_get (Span.attributes sp) ''system_prompt''"

text \<open>The three variants of the span type.\<close>

definition span_type_variants :: "string list" where
  "span_type_variants = [''user_request'', ''llm_inference'', ''tool_execution'']"

text \<open>The keys that \<open>spanGetType\<close>, \<open>spanGetInput\<close> and \<open>spanGetOutput\<close> name.\<close>

definition io_keys :: "string set" where
  "io_keys = {''tracebrain.span.type'', ''tracebrain.llm.new_content'',
     ''tracebrain.tool.input'', ''tracebrain.llm.completion'', ''tracebrain.tool.output''}"

definition llm_span :: Span where
  "llm_span = \<lparr>span_id = ''s2'', parent_id = Some ''s1'', name = ''answer'',
     start_time = ''2024-01-01T10:00:01Z'', end_time = ''2024-01-01T10:00:03Z'',
     attributes = [''tracebrain.span.type'' \<mapsto> JStr ''llm_inference'',
       ''tracebrain.llm.new_content'' \<mapsto> JStr ''42'',
       ''tracebrain.llm.completion'' \<mapsto> JStr ''The answer is 42'',
       ''tracebrain.tool.input'' \<mapsto> JStr ''unused'']\<rparr>"

definition tool_span :: Span where
  "tool_span = \<lparr>span_id = ''s3'', parent_id = Some ''s2'', name = ''calculator'',
     start_time = ''2024-01-01T10:00:03Z'', end_time = ''2024-01-01T10:00:04Z'',
     attributes = [''tracebrain.span.type'' \<mapsto> JStr ''tool_execution'',
       ''tracebrain.tool.name'' \<mapsto> JStr ''calculator'',
       ''tracebrain.tool.input'' \<mapsto> JStr ''6*7'',
       ''tracebrain.tool.output'' \<mapsto> JStr ''42'']\<rparr>"


section \<open>Confidence in the listings (\<^verbatim>\<open>TracesTable\<close>, \<^verbatim>\<open>TraceRows\<close>, \<^verbatim>\<open>EpisodesTable\<close>)\<close>

text \<open>The props a table row hands to the shared \<^verbatim>\<open>ConfidenceIndicator\<close>.\<close>

record IndicatorProps =
  prop_confidence :: jsval
  prop_status :: jsval
  prop_isAnalyzing :: bool

text \<open>
  \<^verbatim>\<open>TraceRow\<close> (and, with the same code, every row of \<^verbatim>\<open>TraceRows\<close>):
  \<^verbatim>\<open>evaluation = traceGetEvaluation(trace); confidence = evaluation?.confidence;
  suggestion_status = evaluation?.status; isAnalyzing = !evaluation\<close>.
\<close>

definition TraceRow :: "Trace \<Rightarrow> IndicatorProps" where
  "TraceRow trace =
     (let evaluation = traceGetEvaluation trace;
          confidence = opt_member evaluation ''confidence'';
          suggestion_status = opt_member evaluation ''status'';
          isAnalyzing = (\<not> truthy evaluation)
      in \<lparr>prop_confidence = confidence, prop_status = suggestion_status,
          prop_isAnalyzing = isAnalyzing\<rparr>)"

text \<open>A trace carries no evaluation block: the key is absent, or it is \<^verbatim>\<open>null\<close>.\<close>

definition lacks_evaluation :: "Trace \<Rightarrow> bool" where
  "lacks_evaluation trace =
     (traceGetEvaluation trace = JUndefined \<or> traceGetEvaluation trace = JNull)"

text \<open>
  Modelled from the spec: \<^verbatim>\<open>episodeGetAverageConfidence\<close> of \<^verbatim>\<open>utils/episodeUtils.ts\<close> is
  imported by \<^verbatim>\<open>EpisodesTable.tsx\<close> but is not among the sources. Section 4.3 of the
  spec: the episode-level average confidence averages only over the traces that carry an
  evaluation, and an episode with no evaluated trace reports no data, not zero.
  \<open>evaluated_confidences\<close> lists the confidences of the traces whose evaluation block
  holds one; no data is \<^verbatim>\<open>undefined\<close>, which is what \<^verbatim>\<open>EpisodeRow\<close> tests for.
\<close>

definition evaluated_confidences :: "Episode \<Rightarrow> real list" where
  "evaluated_confidences episode =
     List.map_filter
       (\<lambda>trace. case opt_member (traceGetEvaluation trace) ''confidence'' of
                  JNum c \<Rightarrow> Some c | _ \<Rightarrow> None)
       (traces episode)"

definition episodeGetAverageConfidence :: "Episode \<Rightarrow> jsval" where
  "episodeGetAverageConfidence episode =
     (let cs = evaluated_confidences episode
      in if cs = [] then JUndefined else JNum (sum_list cs / real (length cs)))"

text \<open>
  \<^verbatim>\<open>EpisodeRow\<close>: \<^verbatim>\<open>confidence={avgConfidence} isAnalyzing={avgConfidence === undefined}\<close>;
  no \<^verbatim>\<open>status\<close> prop is passed.
\<close>

definition EpisodeRow :: "Episode \<Rightarrow> IndicatorProps" where
  "EpisodeRow episode =
     (let avgConfidence = episodeGetAverageConfidence episode
      in \<lparr>prop_confidence = avgConfidence, prop_status = JUndefined,
          prop_isAnalyzing = (avgConfidence = JUndefined)\<rparr>)"

definition evaluated_trace :: Trace where
  "evaluated_trace = \<lparr>trace_id = ''T2'', created_at = ''2024-01-01T11:00:00Z'', feedbacks = [],
     attributes = [''tracebrain.ai_evaluation'' \<mapsto>
       JObj [(''rating'', JNum 4), (''confidence'', JNum 0.5), (''status'', JStr ''completed''),
             (''feedback'', JStr ''ok'')]],
     spans = []\<rparr>"

definition pending_episode :: Episode where
  "pending_episode = \<lparr>episode_id = ''E1'',
     traces = [empty_trace, empty_trace\<lparr>trace_id := ''T3''\<rparr>]\<rparr>"


section \<open>Span lookup and the ancestor walk (\<^verbatim>\<open>TraceVisualizer\<close>)\<close>

text \<open>\<^verbatim>\<open>allSpans.find((s) => s.span_id === id)\<close>: the first span with that id, if any.\<close>

definition find_span :: "Span list \<Rightarrow> string \<Rightarrow> Span option" where
  "find_span allSpans sid = List.find (\<lambda>s. span_id s = sid) allSpans"

text \<open>
  The loop of the effect,
  \<^verbatim>\<open>while (current?.parent_id) { nodesToExpand.add(current.parent_id);
  current = allSpans.find((s) => s.span_id === current?.parent_id); }\<close>.
  The loop condition is truthiness: it stops at an absent \<open>current\<close>, at a \<^verbatim>\<open>null\<close>
  \<open>parent_id\<close> and at an empty string. A walk that never leaves the loop has the value
  \<open>None\<close>.
\<close>

partial_function (option) expandAncestors ::
  "Span list \<Rightarrow> Span option \<Rightarrow> string set \<Rightarrow> string set option" where
  "expandAncestors allSpans current nodesToExpand =
     (case current of
        None \<Rightarrow> Some nodesToExpand
      | Some c \<Rightarrow>
          (case parent_id c of
             None \<Rightarrow> Some nodesToExpand
           | Some p \<Rightarrow>
               if p = [] then Some nodesToExpand
               else expandAncestors allSpans (find_span allSpans p) (insert p nodesToExpand)))"

text \<open>
  \<^verbatim>\<open>if (preselectedSpan) { current = allSpans.find(...); while ... }\<close>, where
  \<open>preselectedSpan\<close> is the \<^verbatim>\<open>span\<close> query parameter (a string or \<^verbatim>\<open>null\<close>).
\<close>

definition expandPreselected ::
  "Span list \<Rightarrow> string option \<Rightarrow> string set \<Rightarrow> string set option" where
  "expandPreselected allSpans preselectedSpan nodesToExpand =
     (case preselectedSpan of
        None \<Rightarrow> Some nodesToExpand
      | Some sid \<Rightarrow>
          if sid = [] then Some nodesToExpand
          else expandAncestors allSpans (find_span allSpans sid) nodesToExpand)"

text \<open>
  The whole effect: nothing is set for an empty list of traces (\<open>Some None\<close>); otherwise
  every trace id is expanded, then the ancestors of the preselected span, and the set is
  stored with \<^verbatim>\<open>setExpandedNodes\<close>.
\<close>

definition expandEffect :: "Trace list \<Rightarrow> string option \<Rightarrow> string set option option" where
  "expandEffect trs preselectedSpan =
     (if length trs = 0 then Some None
      else map_option Some
        (expandPreselected (concat (map spans trs)) preselectedSpan (set (map trace_id trs))))"

text \<open>
  The forest of a span list. The parent of a span id is the \<open>parent_id\<close> of the span the id
  resolves to; the proper ancestors of an id are what the parent relation reaches in one or
  more steps. The forest invariant: every non-null \<open>parent_id\<close> is the id of a span of the
  list, and no parent chain comes back to a node.
\<close>

definition parent_of :: "Span list \<Rightarrow> string \<Rightarrow> string option" where
  "parent_of allSpans sid =
     (case find_span allSpans sid of None \<Rightarrow> None | Some s \<Rightarrow> parent_id s)"

definition parent_rel :: "Span list \<Rightarrow> (string \<times> string) set" where
  "parent_rel allSpans = {(sid, p). parent_of allSpans sid = Some p}"

definition proper_ancestors :: "Span list \<Rightarrow> string \<Rightarrow> string set" where
  "proper_ancestors allSpans sid = {p. (sid, p) \<in> (parent_rel allSpans)\<^sup>+}"

definition parents_resolve :: "Span list \<Rightarrow> bool" where
  "parents_resolve allSpans =
     list_all (\<lambda>s. case parent_id s of None \<Rightarrow> True
                    | Some p \<Rightarrow> list_ex (\<lambda>s'. span_id s' = p) allSpans) allSpans"

definition forest :: "Span list \<Rightarrow> bool" where
  "forest allSpans = (parents_resolve allSpans \<and> acyclic (parent_rel allSpans))"

text \<open>No span names the empty string as its parent.\<close>

definition no_empty_parent :: "Span list \<Rightarrow> bool" where
  "no_empty_parent allSpans = list_all (\<lambda>s. parent_id s \<noteq> Some []) allSpans"

definition mk_span :: "string \<Rightarrow> string option \<Rightarrow> (string \<rightharpoonup> jsval) \<Rightarrow> Span" where
  "mk_span sid parent attrs = \<lparr>span_id = sid, parent_id = parent, name = sid,
     start_time = ''2024-01-01T10:00:00Z'', end_time = ''2024-01-01T10:00:05Z'',
     attributes = attrs\<rparr>"

text \<open>The scenario of the spec: \<open>s1\<close> is a root, \<open>s2\<close> its child, \<open>s3\<close> the child of \<open>s2\<close>.\<close>

definition scenario_spans :: "Span list" where
  "scenario_spans =
     [mk_span ''s1'' None [''tracebrain.span.type'' \<mapsto> JStr ''user_request''],
      mk_span ''s2'' (Some ''s1'')
        [''tracebrain.span.type'' \<mapsto> JStr ''llm_inference'',
         ''tracebrain.llm.new_content'' \<mapsto> JStr ''42''],
      mk_span ''s3'' (Some ''s2'')
        [''tracebrain.span.type'' \<mapsto> JStr ''tool_execution'',
         ''tracebrain.tool.name'' \<mapsto> JStr ''calculator'']]"

text \<open>A root whose id is the empty string, and its child.\<close>

definition empty_id_spans :: "Span list" where
  "empty_id_spans = [mk_span '''' None Map.empty, mk_span ''b'' (Some '''') Map.empty]"

text \<open>A span whose id is the empty string, under a root \<open>a\<close>.\<close>

definition empty_child_spans :: "Span list" where
  "empty_child_spans = [mk_span ''a'' None Map.empty, mk_span '''' (Some ''a'') Map.empty]"


section \<open>Reconstruction of full content\<close>

text \<open>
  Modelled from the spec: the delta content a span contributes to a reconstruction, which
  is server code and not among the sources. Sections 3 and 6 of the spec: the well-known
  key \<^verbatim>\<open><ns>.llm.new_content\<close> holds only the incremental text produced by this node; the
  namespace is the one the client reads, \<open>tracebrain\<close>. A node without a delta
  contributes nothing, the empty string.
\<close>

definition delta_of :: "Span \<Rightarrow> string" where
  "delta_of s =
     (case bag_get (Span.attributes s) ''tracebrain.llm.new_content'' of
        JStr d \<Rightarrow> d | _ \<Rightarrow> [])"

text \<open>
  Modelled from the spec: \<^verbatim>\<open>reconstruct\<close> of the ReconstructionEngine is server code and
  is not among the sources. Section 4.1 of the spec: \<^verbatim>\<open>reconstruct(span_id)\<close> walks the
  ancestor chain from the given span up to its root, collecting each node's own delta
  content in root-to-node order, and concatenates them in that order (the root's delta
  first, the target span's delta last). The result is \<open>None\<close> for an id that resolves to
  no span and for a parent chain that never reaches a root.
\<close>

partial_function (option) reconstruct :: "Span list \<Rightarrow> string \<Rightarrow> string option" where
  "reconstruct allSpans sid =
     (case find_span allSpans sid of
        None \<Rightarrow> None
      | Some s \<Rightarrow>
          (case parent_id s of
             None \<Rightarrow> Some (delta_of s)
           | Some p \<Rightarrow>
               Option.bind (reconstruct allSpans p) (\<lambda>prefix. Some (prefix @ delta_of s))))"

text \<open>
  An ancestor chain of a span list, from a root to a target: each span of the chain is
  the span its id resolves to, the first has no parent, and each later one names its
  predecessor as parent.
\<close>

fun chain_from :: "Span list \<Rightarrow> string option \<Rightarrow> Span list \<Rightarrow> bool" where
  "chain_from allSpans parent [] = True"
| "chain_from allSpans parent (s # rest) =
     (find_span allSpans (span_id s) = Some s \<and> parent_id s = parent
      \<and> chain_from allSpans (Some (span_id s)) rest)"

definition root_chain :: "Span list \<Rightarrow> Span list \<Rightarrow> bool" where
  "root_chain allSpans path = (path \<noteq> [] \<and> chain_from allSpans None path)"

text \<open>The chain of the spec: root \<open>a\<close> with delta \<open>Hello \<close>, child \<open>b\<close> with delta \<open>World\<close>.\<close>

definition span_a :: Span where
  "span_a = mk_span ''a'' None [''tracebrain.llm.new_content'' \<mapsto> JStr ''Hello '']"

definition span_b :: Span where
  "span_b = mk_span ''b'' (Some ''a'') [''tracebrain.llm.new_content'' \<mapsto> JStr ''World'']"


section \<open>Numbers from text: \<^verbatim>\<open>Number(raw)\<close>, \<^verbatim>\<open>Math.round\<close>, \<^verbatim>\<open>Math.min\<close>, \<^verbatim>\<open>Math.max\<close>\<close>

text \<open>
  The built-in \<^verbatim>\<open>Number\<close> applied to a string (ECMAScript StringToNumber): white space
  is trimmed; the empty rest is 0; a rest that is no numeric literal is \<open>NaN\<close>. Numeric
  literals are an optionally signed decimal literal (digits with an optional fraction and
  exponent, or \<^verbatim>\<open>Infinity\<close>) and an unsigned binary, octal or hexadecimal integer.
  Strings are read as sequences of code units below 256. A literal has its exact
  mathematical value, which \<open>Number\<close> rounds to the nearest double.
\<close>

definition is_ws :: "char \<Rightarrow> bool" where
  "is_ws c = (c \<in> {CHR 0x09, CHR 0x0A, CHR 0x0B, CHR 0x0C, CHR 0x0D, CHR 0x20, CHR 0xA0})"

definition trim :: "string \<Rightarrow> string" where
  "trim s = rev (dropWhile is_ws (rev (dropWhile is_ws s)))"

definition digit_of :: "char \<Rightarrow> nat option" where
  "digit_of = map_of
     [(CHR ''0'', 0), (CHR ''1'', 1), (CHR ''2'', 2), (CHR ''3'', 3), (CHR ''4'', 4),
      (CHR ''5'', 5), (CHR ''6'', 6), (CHR ''7'', 7), (CHR ''8'', 8), (CHR ''9'', 9),
      (CHR ''a'', 10), (CHR ''b'', 11), (CHR ''c'', 12), (CHR ''d'', 13), (CHR ''e'', 14),
      (CHR ''f'', 15),
      (CHR ''A'', 10), (CHR ''B'', 11), (CHR ''C'', 12), (CHR ''D'', 13), (CHR ''E'', 14),
      (CHR ''F'', 15)]"

text \<open>The value of a non-empty string of digits of a base; \<open>None\<close> for anything else.\<close>

fun digits_acc :: "nat \<Rightarrow> nat \<Rightarrow> string \<Rightarrow> nat option" where
  "digits_acc base acc [] = Some acc"
| "digits_acc base acc (c # cs) =
     (case digit_of c of
        None \<Rightarrow> None
      | Some d \<Rightarrow> if d < base then digits_acc base (acc * base + d) cs else None)"

definition digits_value :: "nat \<Rightarrow> string \<Rightarrow> nat option" where
  "digits_value base s = (if s = [] then None else digits_acc base 0 s)"

text \<open>\<^verbatim>\<open>SignedInteger\<close>: decimal digits with an optional sign.\<close>

definition signed_integer :: "string \<Rightarrow> int option" where
  "signed_integer s =
     (case s of
        [] \<Rightarrow> None
      | c # cs \<Rightarrow>
          if c = CHR ''+'' then map_option int (digits_value 10 cs)
          else if c = CHR ''-'' then map_option (\<lambda>n. - int n) (digits_value 10 cs)
          else map_option int (digits_value 10 s))"

definition scale10 :: "real \<Rightarrow> int \<Rightarrow> real" where
  "scale10 m e = (if e \<ge> 0 then m * 10 ^ nat e else m / 10 ^ nat (- e))"

text \<open>
  The mantissa \<^verbatim>\<open>digits\<close>, \<^verbatim>\<open>digits.\<close>, \<^verbatim>\<open>digits.digits\<close> or \<^verbatim>\<open>.digits\<close>: its digits read
  as one integer, and the number of digits after the point.
\<close>

definition mantissa :: "string \<Rightarrow> (nat \<times> nat) option" where
  "mantissa s =
     (let ip = takeWhile (\<lambda>c. c \<noteq> CHR ''.'') s;
          rest = dropWhile (\<lambda>c. c \<noteq> CHR ''.'') s
      in if rest = [] then map_option (\<lambda>n. (n, 0)) (digits_value 10 ip)
         else
           (let fp = tl rest
            in if ip = [] \<and> fp = [] then None
               else map_option (\<lambda>n. (n, length fp)) (digits_acc 10 0 (ip @ fp))))"

text \<open>\<^verbatim>\<open>StrUnsignedDecimalLiteral\<close>.\<close>

definition unsigned_decimal :: "string \<Rightarrow> jsnum option" where
  "unsigned_decimal s =
     (if s = ''Infinity'' then Some PosInf
      else
        (let is_e = (\<lambda>c. c = CHR ''e'' \<or> c = CHR ''E'');
             m = takeWhile (\<lambda>c. \<not> is_e c) s;
             rest = dropWhile (\<lambda>c. \<not> is_e c) s;
             ex = (if rest = [] then Some 0 else signed_integer (tl rest))
         in case (mantissa m, ex) of
              (Some (n, k), Some e) \<Rightarrow> Some (Fin (scale10 (real n) (e - int k)))
            | _ \<Rightarrow> None))"

definition js_neg :: "jsnum \<Rightarrow> jsnum" where
  "js_neg v = (case v of NaN \<Rightarrow> NaN | PosInf \<Rightarrow> NegInf | NegInf \<Rightarrow> PosInf | Fin x \<Rightarrow> Fin (- x))"

text \<open>\<^verbatim>\<open>StrNumericLiteral\<close>: a radix-prefixed integer, or a signed decimal literal.\<close>

definition numeric_literal :: "string \<Rightarrow> jsnum option" where
  "numeric_literal s =
     (case s of
        c # d # ds \<Rightarrow>
          if c = CHR ''0'' \<and> (d = CHR ''x'' \<or> d = CHR ''X'')
            then map_option (\<lambda>n. Fin (real n)) (digits_value 16 ds)
          else if c = CHR ''0'' \<and> (d = CHR ''o'' \<or> d = CHR ''O'')
            then map_option (\<lambda>n. Fin (real n)) (digits_value 8 ds)
          else if c = CHR ''0'' \<and> (d = CHR ''b'' \<or> d = CHR ''B'')
            then map_option (\<lambda>n. Fin (real n)) (digits_value 2 ds)
          else if c = CHR ''+'' then unsigned_decimal (d # ds)
          else if c = CHR ''-'' then map_option js_neg (unsigned_decimal (d # ds))
          else unsigned_decimal s
      | _ \<Rightarrow> unsigned_decimal s)"

text \<open>
  The Number type is IEEE 754 binary64. A finite number is the real it denotes (the sign
  of zero is not kept); \<open>to_double\<close> rounds a real to the nearest such number, a tie
  going to the even significand. A number \<open>x \<noteq> 0\<close> lies in the binade
  \<open>2 ^ e \<le> \<bar>x\<bar> < 2 ^ (e + 1)\<close> with \<open>e = binade x\<close>; the doubles of that binade are the
  multiples of \<open>2 ^ (e - 52)\<close>, and below \<open>2 ^ (- 1022)\<close> (the subnormal numbers) the
  multiples of \<open>2 ^ (- 1074)\<close>. The largest binade is 1023: a rounded value that reaches
  \<open>2 ^ 1024\<close> is an infinity.
\<close>

definition pow2 :: "int \<Rightarrow> real" where
  "pow2 e = (if 0 \<le> e then 2 ^ nat e else 1 / 2 ^ nat (- e))"

definition binade :: "real \<Rightarrow> int" where
  "binade x =
     (if 1 \<le> \<bar>x\<bar> then bitlen \<lfloor>\<bar>x\<bar>\<rfloor> - 1 else - bitlen (\<lceil>1 / \<bar>x\<bar>\<rceil> - 1))"

definition round_even :: "real \<Rightarrow> int" where
  "round_even y =
     (let f = \<lfloor>y\<rfloor>
      in if y - of_int f < 1/2 then f
         else if 1/2 < y - of_int f then f + 1
         else if even f then f else f + 1)"

definition to_double :: "real \<Rightarrow> jsnum" where
  "to_double x =
     (if x = 0 then Fin 0
      else
        (let q = pow2 (max (binade x) (- 1022) - 52);
             r = of_int (round_even (x / q)) * q
         in if 1024 \<le> binade r then (if 0 < x then PosInf else NegInf) else Fin r))"

definition round_result :: "jsnum \<Rightarrow> jsnum" where
  "round_result v = (case v of Fin x \<Rightarrow> to_double x | _ \<Rightarrow> v)"

definition Number :: "string \<Rightarrow> jsnum" where
  "Number raw =
     (let t = trim raw
      in if t = [] then Fin 0
         else case numeric_literal t of None \<Rightarrow> NaN | Some v \<Rightarrow> round_result v)"

text \<open>
  The operators \<^verbatim>\<open>*\<close> and \<^verbatim>\<open>/\<close> on numbers: the exact product or quotient of two finite
  numbers rounded to the nearest double; an infinity takes the sign of the result, and
  \<^verbatim>\<open>Infinity * 0\<close>, \<^verbatim>\<open>Infinity / Infinity\<close> and \<^verbatim>\<open>0 / 0\<close> are \<open>NaN\<close>. The divisor zero is \<^verbatim>\<open>+0\<close>.
\<close>

definition js_sign :: "jsnum \<Rightarrow> int" where
  "js_sign v = (case v of NaN \<Rightarrow> 0 | PosInf \<Rightarrow> 1 | NegInf \<Rightarrow> - 1
                | Fin x \<Rightarrow> (if 0 < x then 1 else if x < 0 then - 1 else 0))"

definition js_infinity :: "int \<Rightarrow> jsnum" where
  "js_infinity s = (if 0 < s then PosInf else if s < 0 then NegInf else NaN)"

definition js_mult :: "jsnum \<Rightarrow> jsnum \<Rightarrow> jsnum" where
  "js_mult a b =
     (case (a, b) of
        (NaN, _) \<Rightarrow> NaN
      | (_, NaN) \<Rightarrow> NaN
      | (Fin x, Fin y) \<Rightarrow> to_double (x * y)
      | _ \<Rightarrow> js_infinity (js_sign a * js_sign b))"

definition js_div :: "jsnum \<Rightarrow> jsnum \<Rightarrow> jsnum" where
  "js_div a b =
     (case (a, b) of
        (NaN, _) \<Rightarrow> NaN
      | (_, NaN) \<Rightarrow> NaN
      | (Fin x, Fin y) \<Rightarrow> (if y = 0 then js_infinity (js_sign a) else to_double (x / y))
      | (Fin x, _) \<Rightarrow> Fin 0
      | (_, Fin y) \<Rightarrow> js_infinity (js_sign a * (if y < 0 then - 1 else 1))
      | _ \<Rightarrow> NaN)"

text \<open>
  Multiplication and division by a positive finite constant where the result is a whole
  number below \<open>2 ^ 53\<close>, hence exact (the day count of \<^verbatim>\<open>activeDatePreset\<close>):
  \<open>js_scale k x\<close> for the factor \<open>k > 0\<close>.
\<close>

definition js_scale :: "real \<Rightarrow> jsnum \<Rightarrow> jsnum" where
  "js_scale k v = (case v of NaN \<Rightarrow> NaN | PosInf \<Rightarrow> PosInf | NegInf \<Rightarrow> NegInf
                   | Fin x \<Rightarrow> Fin (k * x))"

text \<open>\<^verbatim>\<open>Math.round\<close>: the nearest integer, a tie going up.\<close>

definition Math_round :: "jsnum \<Rightarrow> jsnum" where
  "Math_round v = (case v of NaN \<Rightarrow> NaN | PosInf \<Rightarrow> PosInf | NegInf \<Rightarrow> NegInf
                   | Fin x \<Rightarrow> Fin (of_int \<lfloor>x + 1/2\<rfloor>))"

text \<open>\<^verbatim>\<open>Math.max\<close> and \<^verbatim>\<open>Math.min\<close> of two numbers: \<open>NaN\<close> if either is.\<close>

fun Math_max :: "jsnum \<Rightarrow> jsnum \<Rightarrow> jsnum" where
  "Math_max NaN b = NaN"
| "Math_max a NaN = NaN"
| "Math_max PosInf b = PosInf"
| "Math_max a PosInf = PosInf"
| "Math_max NegInf b = b"
| "Math_max a NegInf = a"
| "Math_max (Fin x) (Fin y) = Fin (max x y)"

fun Math_min :: "jsnum \<Rightarrow> jsnum \<Rightarrow> jsnum" where
  "Math_min NaN b = NaN"
| "Math_min a NaN = NaN"
| "Math_min NegInf b = NegInf"
| "Math_min a NegInf = NegInf"
| "Math_min PosInf b = b"
| "Math_min a PosInf = a"
| "Math_min (Fin x) (Fin y) = Fin (min x y)"


section \<open>Committing a confidence bound (\<^verbatim>\<open>TraceFiltersPanel\<close>, \<^verbatim>\<open>EpisodesFiltersPanel\<close>)\<close>

text \<open>
  \<^verbatim>\<open>if (raw === "") return set({ minConfidence: null });
  const clamped = Math.min(1, Math.max(0, Math.round(Number(raw) * 100) / 100));
  set({ minConfidence: clamped }); setMinRaw(clamped.toString());\<close>
  The value is the filter state handed to \<^verbatim>\<open>onChange\<close>; the text box (\<^verbatim>\<open>setMinRaw\<close>) is a
  local input buffer and not part of it.
\<close>

definition commitMin :: "TraceFilters \<Rightarrow> string \<Rightarrow> TraceFilters" where
  "commitMin filters raw =
     (if raw = [] then set_filters filters (no_patch\<lparr>patch_minConfidence := Some None\<rparr>)
      else
        (let clamped =
           Math_min (Fin 1)
             (Math_max (Fin 0)
                (js_div (Math_round (js_mult (Number raw) (Fin 100))) (Fin 100)))
         in set_filters filters (no_patch\<lparr>patch_minConfidence := Some (Some clamped)\<rparr>)))"

definition commitMax :: "TraceFilters \<Rightarrow> string \<Rightarrow> TraceFilters" where
  "commitMax filters raw =
     (if raw = [] then set_filters filters (no_patch\<lparr>patch_maxConfidence := Some None\<rparr>)
      else
        (let clamped =
           Math_min (Fin 1)
             (Math_max (Fin 0)
                (js_div (Math_round (js_mult (Number raw) (Fin 100))) (Fin 100)))
         in set_filters filters (no_patch\<lparr>patch_maxConfidence := Some (Some clamped)\<rparr>)))"

text \<open>
  \<^verbatim>\<open>EpisodeFilters\<close> has the one field \<open>minConfidenceLt\<close>, so \<^verbatim>\<open>{ ...filters, ...patch }\<close> with
  a patch of that field is the patch; \<^verbatim>\<open>commit\<close> of the episodes panel hands it on.
\<close>

record EpisodeFilters =
  minConfidenceLt :: "jsnum option"

definition commit :: "EpisodeFilters \<Rightarrow> string \<Rightarrow> EpisodeFilters" where
  "commit filters raw =
     (if raw = [] then filters\<lparr>minConfidenceLt := None\<rparr>
      else
        (let clamped =
           Math_min (Fin 1)
             (Math_max (Fin 0)
                (js_div (Math_round (js_mult (Number raw) (Fin 100))) (Fin 100)))
         in filters\<lparr>minConfidenceLt := Some clamped\<rparr>))"

text \<open>
  Both panels call these only from the \<^verbatim>\<open>onBlur\<close> handler of a
  \<^verbatim>\<open><TextField type="number">\<close>, with the text state of that field: \<^verbatim>\<open>e.target.value\<close> as
  \<^verbatim>\<open>onChange\<close> stored it, the \<^verbatim>\<open>toString()\<close> of a stored bound, or the empty string. The
  value of an \<^verbatim>\<open><input type="number">\<close> is the empty string or a valid floating-point
  number (HTML, value sanitization): an optional \<^verbatim>\<open>-\<close>, then digits, or \<^verbatim>\<open>.\<close> and digits,
  or both, then optionally \<^verbatim>\<open>e\<close> or \<^verbatim>\<open>E\<close>, an optional sign and digits.
\<close>

definition decimal_digits :: "string \<Rightarrow> bool" where
  "decimal_digits s = (\<forall>c \<in> set s. c \<in> set ''0123456789'')"

definition valid_floating_point_number :: "string \<Rightarrow> bool" where
  "valid_floating_point_number s =
     (\<exists>sg ip fr ex.
        s = sg @ ip @ fr @ ex
        \<and> (sg = [] \<or> sg = ''-'')
        \<and> decimal_digits ip
        \<and> (fr = [] \<or> (\<exists>fd. fr = CHR ''.'' # fd \<and> fd \<noteq> [] \<and> decimal_digits fd))
        \<and> (ip \<noteq> [] \<or> fr \<noteq> [])
        \<and> (ex = [] \<or>
             (\<exists>c es ed. ex = c # es @ ed \<and> (c = CHR ''e'' \<or> c = CHR ''E'')
                \<and> (es = [] \<or> es = ''+'' \<or> es = ''-'') \<and> ed \<noteq> [] \<and> decimal_digits ed)))"

definition number_input_value :: "string \<Rightarrow> bool" where
  "number_input_value s = (s = [] \<or> valid_floating_point_number s)"

text \<open>
  A number of two decimal places within [0,1], as a double: the double nearest to \<open>k / 100\<close>
  for a whole \<open>k\<close> from 0 to 100.
\<close>

definition hundredth :: "jsnum \<Rightarrow> bool" where
  "hundredth v = (\<exists>k \<in> {0 .. 100 :: int}. v = to_double (of_int k / 100))"

text \<open>The number \<open>v\<close> clamped into [0,1].\<close>

definition clamp_unit :: "real \<Rightarrow> real" where
  "clamp_unit v = min 1 (max 0 v)"

text \<open>
  The bound \<open>b\<close> is the text \<open>raw\<close> clamped into [0,1] and rounded to two decimal places:
  \<^verbatim>\<open>null\<close> for the empty text; otherwise a number of [0,1] of two decimal places that
  lies within half a hundredth of \<^verbatim>\<open>Number(raw)\<close> clamped into [0,1], up to the rounding
  of the two double operations, which is below \<open>2 ^ (- 52)\<close>.
\<close>

definition rounded_bound :: "string \<Rightarrow> jsnum option \<Rightarrow> bool" where
  "rounded_bound raw b =
     (if raw = [] then b = None
      else
        (\<exists>x. b = Some (Fin x) \<and> 0 \<le> x \<and> x \<le> 1 \<and> hundredth (Fin x)
           \<and> (case Number raw of
                  Fin y \<Rightarrow> \<bar>x - clamp_unit y\<bar> \<le> 1/200 + 1 / 2 ^ 52
                | PosInf \<Rightarrow> x = 1
                | NegInf \<Rightarrow> x = 0
                | NaN \<Rightarrow> False)))"


section \<open>Dates: the built-in \<^verbatim>\<open>Date\<close>\<close>

text \<open>
  A \<^verbatim>\<open>Date\<close> holds a time value, the milliseconds since 1970-01-01T00:00:00Z. The
  functions below are those of the ECMAScript specification of \<^verbatim>\<open>Date\<close> (Day,
  TimeWithinDay, DaysInYear, DayFromYear, LocalTime, UTC, MakeDay), with months counted
  from 1. The year and month of a day number are found by stepping from 1970 and from
  January.
\<close>

definition msPerDay :: int where
  "msPerDay = 86400000"

definition Day :: "int \<Rightarrow> int" where
  "Day t = t div msPerDay"

definition TimeWithinDay :: "int \<Rightarrow> int" where
  "TimeWithinDay t = t mod msPerDay"

definition leap_year :: "int \<Rightarrow> bool" where
  "leap_year y = (y mod 4 = 0 \<and> (y mod 100 \<noteq> 0 \<or> y mod 400 = 0))"

definition DaysInYear :: "int \<Rightarrow> int" where
  "DaysInYear y = (if leap_year y then 366 else 365)"

definition DaysInMonth :: "int \<Rightarrow> int \<Rightarrow> int" where
  "DaysInMonth y m =
     (if m = 2 then (if leap_year y then 29 else 28)
      else if m = 4 \<or> m = 6 \<or> m = 9 \<or> m = 11 then 30 else 31)"

text \<open>The day number of 1 January of a year.\<close>

definition DayFromYear :: "int \<Rightarrow> int" where
  "DayFromYear y =
     365 * (y - 1970) + (y - 1969) div 4 - (y - 1901) div 100 + (y - 1601) div 400"

text \<open>The days of a year before the first of a month.\<close>

definition DaysBeforeMonth :: "int \<Rightarrow> int \<Rightarrow> int" where
  "DaysBeforeMonth y m = sum_list (map (DaysInMonth y) [1..m - 1])"

text \<open>
  \<open>year_from y r\<close>: the year and the day within it of the day that lies \<open>r\<close> days after
  1 January of \<open>y\<close> (before it, for a negative \<open>r\<close>).
\<close>

function year_from :: "int \<Rightarrow> int \<Rightarrow> int \<times> int" where
  "year_from y r =
     (if r < 0 then year_from (y - 1) (r + DaysInYear (y - 1))
      else if r < DaysInYear y then (y, r)
      else year_from (y + 1) (r - DaysInYear y))"
  by pat_completeness auto
termination
  by (relation "measure (\<lambda>(y, r). if r < 0 then nat (- r) + 1
                                    else if r < DaysInYear y then 0 else nat r + 1)")
    (auto simp add: DaysInYear_def)

declare year_from.simps [simp del]

text \<open>\<open>month_from y m r\<close>: the month and the day within it, \<open>r\<close> days after the first of \<open>m\<close>.\<close>

function month_from :: "int \<Rightarrow> int \<Rightarrow> int \<Rightarrow> int \<times> int" where
  "month_from y m r =
     (if r < DaysInMonth y m then (m, r)
      else month_from y (m + 1) (r - DaysInMonth y m))"
  by pat_completeness auto
termination
  by (relation "measure (\<lambda>(y, m, r). nat r)")
    (auto simp add: DaysInMonth_def split: if_splits)

declare month_from.simps [simp del]

text \<open>Year, month (1 to 12) and day of the month of a day number.\<close>

definition civil_from_days :: "int \<Rightarrow> int \<times> int \<times> int" where
  "civil_from_days n =
     (case year_from 1970 n of
        (y, doy) \<Rightarrow> (case month_from y 1 doy of (m, r) \<Rightarrow> (y, m, r + 1)))"

text \<open>\<^verbatim>\<open>MakeDay(year, month, date)\<close> for a month of 1 to 12: \<open>date\<close> may lie outside the month.\<close>

definition MakeDay :: "int \<Rightarrow> int \<Rightarrow> int \<Rightarrow> int" where
  "MakeDay y m dt = DayFromYear y + DaysBeforeMonth y m + dt - 1"

text \<open>
  The host's time zone is \<^verbatim>\<open>LocalTZA(t, isUTC)\<close>, the offset of local time from UTC in
  milliseconds: at the UTC time \<open>t\<close> for \<open>isUTC\<close>, at the local time \<open>t\<close> otherwise.
\<close>

type_synonym timezone = "int \<Rightarrow> bool \<Rightarrow> int"

definition LocalTime :: "timezone \<Rightarrow> int \<Rightarrow> int" where
  "LocalTime LocalTZA t = t + LocalTZA t True"

definition UTC :: "timezone \<Rightarrow> int \<Rightarrow> int" where
  "UTC LocalTZA t = t - LocalTZA t False"

text \<open>\<^verbatim>\<open>getDate()\<close>: the day of the month in local time.\<close>

definition getDate :: "timezone \<Rightarrow> int \<Rightarrow> int" where
  "getDate LocalTZA tv = (case civil_from_days (Day (LocalTime LocalTZA tv)) of (y, m, d) \<Rightarrow> d)"

text \<open>
  \<^verbatim>\<open>setDate(dt)\<close>: the new time value, with year, month and time of day kept in local
  time and the day of the month replaced.
\<close>

definition setDate :: "timezone \<Rightarrow> int \<Rightarrow> int \<Rightarrow> int" where
  "setDate LocalTZA tv dt =
     (let t = LocalTime LocalTZA tv
      in case civil_from_days (Day t) of
           (y, m, d) \<Rightarrow> UTC LocalTZA (MakeDay y m dt * msPerDay + TimeWithinDay t))"

definition digit_char :: "nat \<Rightarrow> char" where
  "digit_char d = ''0123456789'' ! d"

fun pad_digits :: "nat \<Rightarrow> nat \<Rightarrow> string" where
  "pad_digits 0 n = []"
| "pad_digits (Suc w) n = pad_digits w (n div 10) @ [digit_char (n mod 10)]"

text \<open>
  \<^verbatim>\<open>toISOString().slice(0, 10)\<close>: the UTC date \<^verbatim>\<open>YYYY-MM-DD\<close>. A year outside 0 to 9999 is
  written with a sign and six digits, of which the slice keeps \<^verbatim>\<open>+YYYYYY-MM\<close>.
\<close>

definition toISODate :: "int \<Rightarrow> string" where
  "toISODate tv =
     (case civil_from_days (Day tv) of
        (y, m, d) \<Rightarrow>
          take 10
            ((if 0 \<le> y \<and> y \<le> 9999 then pad_digits 4 (nat y)
              else (if y < 0 then ''-'' else ''+'') @ pad_digits 6 (nat \<bar>y\<bar>))
             @ ''-'' @ pad_digits 2 (nat m) @ ''-'' @ pad_digits 2 (nat d)))"

text \<open>
  \<^verbatim>\<open>new Date(s).getTime()\<close> for the date-only form \<^verbatim>\<open>YYYY-MM-DD\<close>, which is read as UTC
  midnight; an ill-formed date is \<open>NaN\<close>. This is the form the presets and the date inputs
  of the panel produce; other date-time formats are not modelled and read as \<open>NaN\<close>.
\<close>

definition parseDate :: "string \<Rightarrow> jsnum" where
  "parseDate s =
     (if length s = 10 \<and> s ! 4 = CHR ''-'' \<and> s ! 7 = CHR ''-'' then
        (case (digits_value 10 (take 4 s), digits_value 10 (take 2 (drop 5 s)),
               digits_value 10 (drop 8 s)) of
           (Some y, Some m, Some d) \<Rightarrow>
             if 1 \<le> m \<and> m \<le> 12 \<and> 1 \<le> d \<and> int d \<le> DaysInMonth (int y) (int m)
             then Fin (of_int (MakeDay (int y) (int m) (int d) * msPerDay))
             else NaN
         | _ \<Rightarrow> NaN)
      else NaN)"

text \<open>Subtraction of two numbers.\<close>

fun js_sub :: "jsnum \<Rightarrow> jsnum \<Rightarrow> jsnum" where
  "js_sub (Fin x) (Fin y) = Fin (x - y)"
| "js_sub NaN b = NaN"
| "js_sub a NaN = NaN"
| "js_sub PosInf PosInf = NaN"
| "js_sub NegInf NegInf = NaN"
| "js_sub PosInf b = PosInf"
| "js_sub NegInf b = NegInf"
| "js_sub a PosInf = NegInf"
| "js_sub a NegInf = PosInf"


section \<open>Date presets (\<^verbatim>\<open>TraceFiltersPanel\<close>)\<close>

record DatePreset =
  label :: string
  days :: int

definition DATE_PRESETS :: "DatePreset list" where
  "DATE_PRESETS =
     [\<lparr>label = ''Today'', days = 0\<rparr>,
      \<lparr>label = ''Yesterday'', days = 1\<rparr>,
      \<lparr>label = ''Last week'', days = 7\<rparr>,
      \<lparr>label = ''Last month'', days = 28\<rparr>,
      \<lparr>label = ''Last 3 months'', days = 90\<rparr>,
      \<lparr>label = ''Last 12 months'', days = 365\<rparr>]"

text \<open>
  \<^verbatim>\<open>activeDatePreset\<close>: \<^verbatim>\<open>null\<close> (\<open>None\<close>) unless both times are set; otherwise the label of
  the first preset whose \<open>days\<close> equals the rounded number of days between the two dates.
\<close>

definition activeDatePreset :: "TraceFilters \<Rightarrow> string option" where
  "activeDatePreset filters =
     (if startTime filters = [] \<or> endTime filters = [] then None
      else
        (let end_date = parseDate (endTime filters);
             start_date = parseDate (startTime filters);
             diffDays = Math_round (js_scale (1 / (1000 * 60 * 60 * 24))
                          (js_sub end_date start_date))
         in map_option label (List.find (\<lambda>p. Fin (of_int (days p)) = diffDays) DATE_PRESETS)))"

text \<open>
  \<^verbatim>\<open>applyPreset(days)\<close>, with the host's time zone and the clock reading \<open>now\<close> that
  \<^verbatim>\<open>new Date()\<close> returns (the two consecutive readings of the second branch are taken to be
  the same instant).
\<close>

definition applyPreset :: "timezone \<Rightarrow> int \<Rightarrow> TraceFilters \<Rightarrow> int \<Rightarrow> TraceFilters" where
  "applyPreset LocalTZA now filters n =
     (if n = 0 then
        (let today = toISODate now
         in set_filters filters
              (no_patch\<lparr>patch_startTime := Some today, patch_endTime := Some today\<rparr>))
      else
        (let end_date = now;
             start_date = setDate LocalTZA now (getDate LocalTZA end_date - n)
         in set_filters filters
              (no_patch\<lparr>patch_startTime := Some (toISODate start_date),
                        patch_endTime := Some (toISODate end_date)\<rparr>)))"

text \<open>
  A time zone one hour ahead of UTC that moves to two hours ahead at
  2024-03-31T01:00:00Z, as Central European Time did. A local time of the skipped hour is
  read with the offset before the change.
\<close>

definition cet_2024 :: timezone where
  "cet_2024 t isUTC =
     (if isUTC then (if t < 1711846800000 then 3600000 else 7200000)
      else (if t < 1711854000000 then 3600000 else 7200000))"

text \<open>A time zone at a fixed offset from UTC.\<close>

definition fixed_zone :: "int \<Rightarrow> timezone" where
  "fixed_zone offset t isUTC = offset"


section \<open>Latest feedback\<close>

lemma traceGetLatestFeedback_null_iff:
  "traceGetLatestFeedback trace = None \<longleftrightarrow> feedbacks trace = []"
  by (simp add: traceGetLatestFeedback_def)

lemma traceGetLatestFeedback_head:
  "feedbacks trace \<noteq> [] \<Longrightarrow> traceGetLatestFeedback trace = Some (hd (feedbacks trace))"
  by (simp add: traceGetLatestFeedback_def hd_conv_nth)

text \<open>
  Claim C1. For a trace whose feedbacks are listed in append order (oldest first), the
  accessor is to return the most recently appended entry. In the trace below
  \<open>feedback_first\<close> was appended before \<open>feedback_second\<close>, so the most recently
  appended entry is \<open>feedback_second\<close>, the last of the sequence; the accessor returns
  \<open>feedback_first\<close>, the oldest entry.
\<close>

theorem traceGetLatestFeedback_returns_oldest:
  "traceGetLatestFeedback (empty_trace\<lparr>feedbacks := [feedback_first, feedback_second]\<rparr>)
     = Some feedback_first
   \<and> last (feedbacks (empty_trace\<lparr>feedbacks := [feedback_first, feedback_second]\<rparr>))
     = feedback_second
   \<and> traceGetLatestFeedback (empty_trace\<lparr>feedbacks := [feedback_first, feedback_second]\<rparr>)
     \<noteq> Some feedback_second"
  by (simp add: traceGetLatestFeedback_def feedback_first_def feedback_second_def)


section \<open>Filter defaults and chips\<close>

lemma set_filters_no_patch: "set_filters filters no_patch = filters"
  by (simp add: set_filters_def no_patch_def)

lemma constraints_of_empty_iff: "constraints_of f = [] \<longleftrightarrow> f = DEFAULT_TRACE_FILTERS"
  by (cases f) (auto simp add: constraints_of_def DEFAULT_TRACE_FILTERS_def split: option.splits)

lemma constraints_of_onClear:
  "set (constraints_of (status_onClear f)) \<subseteq> set (constraints_of f)"
  "set (constraints_of (errorType_onClear f)) \<subseteq> set (constraints_of f)"
  "set (constraints_of (minRating_onClear f)) \<subseteq> set (constraints_of f)"
  "set (constraints_of (confidence_onClear f)) \<subseteq> set (constraints_of f)"
  "set (constraints_of (dateRange_onClear f)) \<subseteq> set (constraints_of f)"
  by (auto simp add: constraints_of_def status_onClear_def errorType_onClear_def
      minRating_onClear_def confidence_onClear_def dateRange_onClear_def set_filters_def
      no_patch_def split: option.splits if_splits)

lemma filter_matches_mono:
  "set (constraints_of g) \<subseteq> set (constraints_of f) \<Longrightarrow>
     filter_matches holds f t \<Longrightarrow> filter_matches holds g t"
  by (auto simp add: filter_matches_def list_all_iff)

text \<open>
  Claim C5. The filter record has exactly the seven fields status, error type, minimum
  rating, confidence minimum and maximum, start and end time. In the default state every
  field holds its no-constraint value (the empty string or \<^verbatim>\<open>null\<close>). An absent filter
  constrains nothing: the default state yields no constraint, so it matches every trace,
  however a constraint is tested, also a trace whose data is not empty; it is the only
  state that does; and clearing a chip never excludes a trace that matched. The
  \<^verbatim>\<open>Clear all\<close> button, shown exactly when some filter is set, resets to the default state.
\<close>

theorem default_filters_no_constraint:
  "(\<forall>f :: TraceFilters. f = \<lparr>status = status f, errorType = errorType f,
       minRating = minRating f, minConfidence = minConfidence f,
       maxConfidence = maxConfidence f, startTime = startTime f, endTime = endTime f\<rparr>)
   \<and> status DEFAULT_TRACE_FILTERS = '''' \<and> errorType DEFAULT_TRACE_FILTERS = ''''
   \<and> minRating DEFAULT_TRACE_FILTERS = None
   \<and> minConfidence DEFAULT_TRACE_FILTERS = None \<and> maxConfidence DEFAULT_TRACE_FILTERS = None
   \<and> startTime DEFAULT_TRACE_FILTERS = '''' \<and> endTime DEFAULT_TRACE_FILTERS = ''''
   \<and> constraints_of DEFAULT_TRACE_FILTERS = []
   \<and> (\<forall>holds trace. filter_matches holds DEFAULT_TRACE_FILTERS trace)
   \<and> (\<forall>f. (\<forall>holds trace. filter_matches holds f trace) \<longleftrightarrow> f = DEFAULT_TRACE_FILTERS)
   \<and> (\<forall>holds f trace. filter_matches holds f trace \<longrightarrow>
         filter_matches holds (status_onClear f) trace
         \<and> filter_matches holds (errorType_onClear f) trace
         \<and> filter_matches holds (minRating_onClear f) trace
         \<and> filter_matches holds (confidence_onClear f) trace
         \<and> filter_matches holds (dateRange_onClear f) trace)
   \<and> (\<forall>f. clearAllShown f \<longleftrightarrow> f \<noteq> DEFAULT_TRACE_FILTERS)
   \<and> (\<forall>f. clearAll_onClick f = DEFAULT_TRACE_FILTERS)"
proof -
  have ext: "f = \<lparr>status = status f, errorType = errorType f,
       minRating = minRating f, minConfidence = minConfidence f,
       maxConfidence = maxConfidence f, startTime = startTime f, endTime = endTime f\<rparr>"
    for f :: TraceFilters
    by simp
  have fields: "status DEFAULT_TRACE_FILTERS = '''' \<and> errorType DEFAULT_TRACE_FILTERS = ''''
      \<and> minRating DEFAULT_TRACE_FILTERS = None
      \<and> minConfidence DEFAULT_TRACE_FILTERS = None \<and> maxConfidence DEFAULT_TRACE_FILTERS = None
      \<and> startTime DEFAULT_TRACE_FILTERS = '''' \<and> endTime DEFAULT_TRACE_FILTERS = ''''"
    by (simp add: DEFAULT_TRACE_FILTERS_def)
  have none: "constraints_of DEFAULT_TRACE_FILTERS = []"
    by (simp add: constraints_of_empty_iff)
  have all: "filter_matches holds DEFAULT_TRACE_FILTERS trace" for holds trace
    by (simp add: filter_matches_def none)
  have only: "(\<forall>holds trace. filter_matches holds f trace) \<longleftrightarrow> f = DEFAULT_TRACE_FILTERS"
    for f
  proof
    assume "\<forall>holds trace. filter_matches holds f trace"
    then have "filter_matches (\<lambda>c t. False) f empty_trace"
      by blast
    then have "constraints_of f = []"
      by (cases "constraints_of f") (simp_all add: filter_matches_def)
    then show "f = DEFAULT_TRACE_FILTERS"
      by (simp add: constraints_of_empty_iff)
  next
    assume "f = DEFAULT_TRACE_FILTERS"
    with all show "\<forall>holds trace. filter_matches holds f trace"
      by simp
  qed
  have widen: "filter_matches holds f trace \<longrightarrow>
         filter_matches holds (status_onClear f) trace
         \<and> filter_matches holds (errorType_onClear f) trace
         \<and> filter_matches holds (minRating_onClear f) trace
         \<and> filter_matches holds (confidence_onClear f) trace
         \<and> filter_matches holds (dateRange_onClear f) trace" for holds f trace
    using constraints_of_onClear [of f] filter_matches_mono [of _ f holds trace] by blast
  have shown: "clearAllShown f \<longleftrightarrow> f \<noteq> DEFAULT_TRACE_FILTERS" for f
    by (cases f)
      (auto simp add: clearAllShown_def statusActive_def errorTypeActive_def
        minRatingActive_def confActive_def dateActive_def DEFAULT_TRACE_FILTERS_def)
  have reset: "clearAll_onClick f = DEFAULT_TRACE_FILTERS" for f
    by (simp add: clearAll_onClick_def DEFAULT_TRACE_FILTERS_def)
  from ext fields none all only widen shown reset show ?thesis
    by blast
qed

theorem default_filters_no_constraint_witness:
  "traceGetStatus failed_trace = JStr ''failed''
   \<and> \<not> status_test (StatusIs '''') failed_trace
   \<and> filter_matches status_test DEFAULT_TRACE_FILTERS failed_trace
   \<and> filter_matches status_test DEFAULT_TRACE_FILTERS empty_trace
   \<and> filter_matches status_test filters_failed_only failed_trace
   \<and> \<not> filter_matches status_test filters_failed_only empty_trace
   \<and> filter_matches status_test (status_onClear filters_failed_only) empty_trace
   \<and> filters_failed_only \<noteq> DEFAULT_TRACE_FILTERS \<and> clearAllShown filters_failed_only
   \<and> clearAll_onClick filters_failed_only = DEFAULT_TRACE_FILTERS"
proof -
  have st: "traceGetStatus failed_trace = JStr ''failed''"
    by (simp add: traceGetStatus_def failed_trace_def bag_get_def)
  then have ne_empty: "\<not> status_test (StatusIs '''') failed_trace"
    by (simp add: status_test_def)
  have cs: "constraints_of filters_failed_only = [StatusIs ''failed'']"
    by (simp add: constraints_of_def filters_failed_only_def)
  have m1: "filter_matches status_test filters_failed_only failed_trace"
    by (simp add: filter_matches_def cs status_test_def st)
  have m2: "\<not> filter_matches status_test filters_failed_only empty_trace"
    by (simp add: filter_matches_def cs status_test_def traceGetStatus_def empty_trace_def
        bag_get_def)
  have ne: "filters_failed_only \<noteq> DEFAULT_TRACE_FILTERS"
    by (simp add: filters_failed_only_def DEFAULT_TRACE_FILTERS_def)
  have cleared: "status_onClear filters_failed_only = DEFAULT_TRACE_FILTERS"
    by (simp add: status_onClear_def set_filters_def no_patch_def filters_failed_only_def
        DEFAULT_TRACE_FILTERS_def)
  have every: "\<forall>holds trace. filter_matches holds DEFAULT_TRACE_FILTERS trace"
    using default_filters_no_constraint by (elim conjE)
  have shown: "\<forall>f. clearAllShown f \<longleftrightarrow> f \<noteq> DEFAULT_TRACE_FILTERS"
    using default_filters_no_constraint by (elim conjE)
  have reset: "\<forall>f. clearAll_onClick f = DEFAULT_TRACE_FILTERS"
    using default_filters_no_constraint by (elim conjE)
  from every have d1: "filter_matches status_test DEFAULT_TRACE_FILTERS failed_trace"
    and d2: "filter_matches status_test DEFAULT_TRACE_FILTERS empty_trace"
    by simp_all
  from shown ne have s1: "clearAllShown filters_failed_only"
    by simp
  from reset have r1: "clearAll_onClick filters_failed_only = DEFAULT_TRACE_FILTERS"
    by simp
  from st ne_empty d1 d2 m1 m2 ne s1 r1 show ?thesis
    by (simp only: cleared simp_thms)
qed

text \<open>
  Claim C9. Clearing a chip changes the fields of its own group only. Clearing the status
  chip makes the status empty and leaves error type, minimum rating, both confidence
  bounds and both times as they were; the error-type, rating, confidence and date chips
  likewise reset their own field or pair of fields and nothing else.
\<close>

theorem chip_clear_frame:
  "status (status_onClear f) = ''''
   \<and> errorType (status_onClear f) = errorType f
   \<and> minRating (status_onClear f) = minRating f
   \<and> minConfidence (status_onClear f) = minConfidence f
   \<and> maxConfidence (status_onClear f) = maxConfidence f
   \<and> startTime (status_onClear f) = startTime f
   \<and> endTime (status_onClear f) = endTime f
   \<and> errorType_onClear f = f\<lparr>errorType := ''''\<rparr>
   \<and> minRating_onClear f = f\<lparr>minRating := None\<rparr>
   \<and> confidence_onClear f = f\<lparr>minConfidence := None, maxConfidence := None\<rparr>
   \<and> dateRange_onClear f = f\<lparr>startTime := '''', endTime := ''''\<rparr>"
  by (simp add: status_onClear_def errorType_onClear_def minRating_onClear_def
      confidence_onClear_def dateRange_onClear_def set_filters_def no_patch_def)


section \<open>The two confidence bars\<close>

text \<open>
  Claim C8, as stated, fails: at confidence 0.25 the dashboard indicator is coloured as a
  warning and the evaluation panel's bar as an error.
\<close>

theorem confidence_colours_differ:
  "(0::real) \<le> 1/4 \<and> (1/4::real) \<le> 1
   \<and> severity_of (progressColor (1/4)) = Some Warning
   \<and> severity_of (barColor (1/4)) = Some Error
   \<and> severity_of (progressColor (1/4)) \<noteq> severity_of (barColor (1/4))"
  by (simp add: progressColor_def barColor_def severity_of_def)

lemma progressColor_severity:
  "severity_of (progressColor c) =
     Some (if c < 0.2 then Error else if c < 0.8 then Warning else Success)"
  by (simp add: progressColor_def severity_of_def)

lemma barColor_severity:
  "severity_of (barColor c) =
     Some (if c \<ge> 0.8 then Success else if c \<ge> 0.5 then Warning else Error)"
  by (simp add: barColor_def severity_of_def)

text \<open>
  Claim C8, amended. For a confidence in [0,1] the two bars show the same severity exactly
  when the confidence is below 0.2 or at least 0.5: both show success from 0.8 on, both
  warn on [0.5, 0.8), both show an error below 0.2, and on [0.2, 0.5) the dashboard
  indicator warns where the evaluation panel shows an error.
\<close>

theorem confidence_colours_agree_iff:
  "0 \<le> c \<Longrightarrow> c \<le> 1 \<Longrightarrow>
     (severity_of (progressColor c) = severity_of (barColor c)) = (c < 0.2 \<or> 0.5 \<le> c)"
  by (auto simp add: progressColor_severity barColor_severity)

theorem confidence_colours_agree_iff_witness:
  "(0::real) \<le> 9/10 \<and> (9/10::real) \<le> 1
   \<and> severity_of (progressColor (9/10)) = severity_of (barColor (9/10))"
proof -
  have lo: "(0::real) \<le> 9/10" and hi: "(9/10::real) \<le> 1" by simp_all
  from confidence_colours_agree_iff [OF lo hi] lo hi show ?thesis by simp
qed


section \<open>Span accessors read the well-known keys\<close>

lemma bag_get_upd_other: "k \<noteq> k' \<Longrightarrow> bag_get (bag(k := v)) k' = bag_get bag k'"
  by (simp add: bag_get_def)

lemma spanGetType_upd_other:
  "k \<noteq> ''tracebrain.span.type'' \<Longrightarrow>
     spanGetType (sp\<lparr>Span.attributes := (Span.attributes sp)(k := v)\<rparr>) = spanGetType sp"
  by (simp add: spanGetType_def bag_get_upd_other)

lemma spanGetInput_upd_other:
  assumes "k \<notin> io_keys"
  shows "spanGetInput (sp\<lparr>Span.attributes := (Span.attributes sp)(k := v)\<rparr>)
           = spanGetInput sp"
proof -
  from assms have "k \<noteq> ''tracebrain.span.type''" "k \<noteq> ''tracebrain.llm.new_content''"
    "k \<noteq> ''tracebrain.tool.input''"
    by (auto simp add: io_keys_def)
  then show ?thesis
    by (simp add: spanGetInput_def spanGetType_def bag_get_upd_other)
qed

lemma spanGetOutput_upd_other:
  assumes "k \<notin> io_keys"
  shows "spanGetOutput (sp\<lparr>Span.attributes := (Span.attributes sp)(k := v)\<rparr>)
           = spanGetOutput sp"
proof -
  from assms have "k \<noteq> ''tracebrain.span.type''" "k \<noteq> ''tracebrain.llm.completion''"
    "k \<noteq> ''tracebrain.tool.output''"
    by (auto simp add: io_keys_def)
  then show ?thesis
    by (simp add: spanGetOutput_def spanGetType_def bag_get_upd_other)
qed

text \<open>
  Claim C6. \<open>spanGetType\<close> reads the span-type key. For a span of type
  \<open>llm_inference\<close>, \<open>spanGetInput\<close> is the value of the delta-content key
  \<open>tracebrain.llm.new_content\<close> and \<open>spanGetOutput\<close> the value of the completion key;
  for every other type, so for the variants \<open>user_request\<close> and \<open>tool_execution\<close>, they
  are the values of the tool-input and tool-output keys. The accessors read no other key:
  setting or removing a key outside these five changes none of the three results. (The
  accessors return values only; they have no way to change the attribute bag.)
\<close>

theorem span_accessors_well_known_keys:
  "spanGetType sp = bag_get (Span.attributes sp) ''tracebrain.span.type''
   \<and> (spanGetType sp = JStr ''llm_inference'' \<longrightarrow>
        spanGetInput sp = bag_get (Span.attributes sp) ''tracebrain.llm.new_content''
        \<and> spanGetOutput sp = bag_get (Span.attributes sp) ''tracebrain.llm.completion'')
   \<and> (spanGetType sp \<noteq> JStr ''llm_inference'' \<longrightarrow>
        spanGetInput sp = bag_get (Span.attributes sp) ''tracebrain.tool.input''
        \<and> spanGetOutput sp = bag_get (Span.attributes sp) ''tracebrain.tool.output'')
   \<and> (\<forall>t \<in> set span_type_variants. spanGetType sp = JStr t \<longrightarrow> t \<noteq> ''llm_inference'' \<longrightarrow>
        spanGetInput sp = bag_get (Span.attributes sp) ''tracebrain.tool.input''
        \<and> spanGetOutput sp = bag_get (Span.attributes sp) ''tracebrain.tool.output'')
   \<and> (k \<notin> io_keys \<longrightarrow>
        spanGetType (sp\<lparr>Span.attributes := (Span.attributes sp)(k := v)\<rparr>) = spanGetType sp
        \<and> spanGetInput (sp\<lparr>Span.attributes := (Span.attributes sp)(k := v)\<rparr>)
            = spanGetInput sp
        \<and> spanGetOutput (sp\<lparr>Span.attributes := (Span.attributes sp)(k := v)\<rparr>)
            = spanGetOutput sp)"
proof -
  have type: "spanGetType sp = bag_get (Span.attributes sp) ''tracebrain.span.type''"
    by (simp add: spanGetType_def)
  have llm: "spanGetType sp = JStr ''llm_inference'' \<Longrightarrow>
      spanGetInput sp = bag_get (Span.attributes sp) ''tracebrain.llm.new_content''
      \<and> spanGetOutput sp = bag_get (Span.attributes sp) ''tracebrain.llm.completion''"
    by (simp add: spanGetInput_def spanGetOutput_def)
  have other: "spanGetType sp \<noteq> JStr ''llm_inference'' \<Longrightarrow>
      spanGetInput sp = bag_get (Span.attributes sp) ''tracebrain.tool.input''
      \<and> spanGetOutput sp = bag_get (Span.attributes sp) ''tracebrain.tool.output''"
    by (simp add: spanGetInput_def spanGetOutput_def)
  have frame: "k \<notin> io_keys \<Longrightarrow>
      spanGetType (sp\<lparr>Span.attributes := (Span.attributes sp)(k := v)\<rparr>) = spanGetType sp
      \<and> spanGetInput (sp\<lparr>Span.attributes := (Span.attributes sp)(k := v)\<rparr>)
          = spanGetInput sp
      \<and> spanGetOutput (sp\<lparr>Span.attributes := (Span.attributes sp)(k := v)\<rparr>)
          = spanGetOutput sp"
    using spanGetType_upd_other [of k sp v] spanGetInput_upd_other [of k sp v]
      spanGetOutput_upd_other [of k sp v]
    by (simp add: io_keys_def)
  from type llm other frame show ?thesis
    by auto
qed

theorem span_accessors_well_known_keys_witness:
  "spanGetType llm_span = JStr ''llm_inference''
   \<and> spanGetInput llm_span = JStr ''42''
   \<and> spanGetOutput llm_span = JStr ''The answer is 42''
   \<and> ''vendor.note'' \<notin> io_keys
   \<and> spanGetInput (llm_span\<lparr>Span.attributes := (Span.attributes llm_span)(''vendor.note'' := Some JNull)\<rparr>)
       = JStr ''42''
   \<and> spanGetType tool_span = JStr ''tool_execution''
   \<and> ''tool_execution'' \<in> set span_type_variants
   \<and> spanGetInput tool_span = JStr ''6*7''
   \<and> spanGetOutput tool_span = JStr ''42''"
proof -
  have t1: "spanGetType llm_span = JStr ''llm_inference''"
    by (simp add: spanGetType_def llm_span_def bag_get_def)
  have t2: "spanGetType tool_span = JStr ''tool_execution''"
    by (simp add: spanGetType_def tool_span_def bag_get_def)
  have k: "''vendor.note'' \<notin> io_keys"
    by (simp add: io_keys_def)
  have v: "''tool_execution'' \<in> set span_type_variants"
    by (simp add: span_type_variants_def)
  from span_accessors_well_known_keys [of llm_span "''vendor.note''" "Some JNull"] t1 k
  have a: "spanGetInput llm_span = bag_get (Span.attributes llm_span) ''tracebrain.llm.new_content''"
    and b: "spanGetOutput llm_span = bag_get (Span.attributes llm_span) ''tracebrain.llm.completion''"
    and c: "spanGetInput (llm_span\<lparr>Span.attributes := (Span.attributes llm_span)(''vendor.note'' := Some JNull)\<rparr>)
       = spanGetInput llm_span"
    by blast+
  from span_accessors_well_known_keys [of tool_span "''vendor.note''" "Some JNull"] t2
  have d: "spanGetInput tool_span = bag_get (Span.attributes tool_span) ''tracebrain.tool.input''"
    and e: "spanGetOutput tool_span = bag_get (Span.attributes tool_span) ''tracebrain.tool.output''"
    by simp_all
  have a': "bag_get (Span.attributes llm_span) ''tracebrain.llm.new_content'' = JStr ''42''"
    and b': "bag_get (Span.attributes llm_span) ''tracebrain.llm.completion'' = JStr ''The answer is 42''"
    by (simp_all add: llm_span_def bag_get_def)
  have d': "bag_get (Span.attributes tool_span) ''tracebrain.tool.input'' = JStr ''6*7''"
    and e': "bag_get (Span.attributes tool_span) ''tracebrain.tool.output'' = JStr ''42''"
    by (simp_all add: tool_span_def bag_get_def)
  from t1 t2 k v a b c d e a' b' d' e' show ?thesis
    by simp
qed


section \<open>Missing evaluations are not zero confidence\<close>

lemma TraceRow_lacking:
  assumes "lacks_evaluation trace"
  shows "TraceRow trace =
    \<lparr>prop_confidence = JUndefined, prop_status = JUndefined, prop_isAnalyzing = True\<rparr>"
  using assms by (auto simp add: lacks_evaluation_def TraceRow_def Let_def)

lemma evaluated_confidences_none:
  assumes "\<And>t. t \<in> set (traces episode) \<Longrightarrow> lacks_evaluation t"
  shows "evaluated_confidences episode = []"
proof -
  have "List.map_filter
       (\<lambda>trace. case opt_member (traceGetEvaluation trace) ''confidence'' of
                  JNum c \<Rightarrow> Some c | _ \<Rightarrow> None) ts = []"
    if "\<And>t. t \<in> set ts \<Longrightarrow> lacks_evaluation t" for ts
    using that
  proof (induction ts)
    case Nil
    show ?case by (simp add: map_filter_simps)
  next
    case (Cons t ts)
    have "lacks_evaluation t" by (simp add: Cons.prems)
    then have "opt_member (traceGetEvaluation t) ''confidence'' = JUndefined"
      by (auto simp add: lacks_evaluation_def)
    with Cons show ?case by (simp add: map_filter_simps)
  qed
  with assms show ?thesis by (simp add: evaluated_confidences_def)
qed

text \<open>
  Claim C3. For a trace without an evaluation block the row of the trace listing passes
  an absent (\<^verbatim>\<open>undefined\<close>) confidence and the analysing flag to the indicator, never the
  number zero. For an episode none of whose traces carries an evaluation the average
  confidence is \<^verbatim>\<open>undefined\<close> (no data), so the episode row passes the analysing flag, and
  never the number zero.
\<close>

theorem missing_evaluation_is_not_zero:
  "(lacks_evaluation trace \<longrightarrow>
      prop_confidence (TraceRow trace) = JUndefined
      \<and> prop_isAnalyzing (TraceRow trace)
      \<and> prop_confidence (TraceRow trace) \<noteq> JNum 0)
   \<and> ((\<forall>t \<in> set (traces episode). lacks_evaluation t) \<longrightarrow>
        episodeGetAverageConfidence episode = JUndefined
        \<and> prop_confidence (EpisodeRow episode) = JUndefined
        \<and> prop_isAnalyzing (EpisodeRow episode)
        \<and> prop_confidence (EpisodeRow episode) \<noteq> JNum 0)"
proof (intro conjI impI)
  assume "lacks_evaluation trace"
  from TraceRow_lacking [OF this]
  show "prop_confidence (TraceRow trace) = JUndefined" "prop_isAnalyzing (TraceRow trace)"
    "prop_confidence (TraceRow trace) \<noteq> JNum 0"
    by simp_all
next
  assume "\<forall>t \<in> set (traces episode). lacks_evaluation t"
  then have none: "evaluated_confidences episode = []"
    by (simp add: evaluated_confidences_none)
  then show avg: "episodeGetAverageConfidence episode = JUndefined"
    by (simp add: episodeGetAverageConfidence_def)
  from avg show "prop_confidence (EpisodeRow episode) = JUndefined"
    "prop_isAnalyzing (EpisodeRow episode)" "prop_confidence (EpisodeRow episode) \<noteq> JNum 0"
    by (simp_all add: EpisodeRow_def Let_def)
qed

lemma lacks_evaluation_empty_trace: "lacks_evaluation (empty_trace\<lparr>trace_id := tid\<rparr>)"
  by (simp add: lacks_evaluation_def traceGetEvaluation_def empty_trace_def bag_get_def)

theorem missing_evaluation_is_not_zero_witness:
  "lacks_evaluation empty_trace
   \<and> prop_confidence (TraceRow empty_trace) = JUndefined
   \<and> prop_isAnalyzing (TraceRow empty_trace)
   \<and> list_all lacks_evaluation (traces pending_episode)
   \<and> traces pending_episode \<noteq> []
   \<and> prop_confidence (EpisodeRow pending_episode) = JUndefined
   \<and> prop_isAnalyzing (EpisodeRow pending_episode)"
proof -
  have l1: "lacks_evaluation empty_trace"
    by (simp add: lacks_evaluation_def traceGetEvaluation_def empty_trace_def bag_get_def)
  have l2: "\<forall>t \<in> set (traces pending_episode). lacks_evaluation t"
    using l1 lacks_evaluation_empty_trace by (simp add: pending_episode_def)
  have l3: "traces pending_episode \<noteq> []"
    by (simp add: pending_episode_def)
  from missing_evaluation_is_not_zero [of empty_trace pending_episode] l1 l2 l3
  show ?thesis
    by (simp add: list_all_iff)
qed

text \<open>Where evaluations are present both rows do carry a number.\<close>

lemma TraceRow_evaluated:
  "TraceRow evaluated_trace =
     \<lparr>prop_confidence = JNum 0.5, prop_status = JStr ''completed'', prop_isAnalyzing = False\<rparr>"
  by (simp add: TraceRow_def traceGetEvaluation_def evaluated_trace_def bag_get_def)

lemma EpisodeRow_evaluated:
  "EpisodeRow \<lparr>episode_id = ''E2'', traces = [empty_trace, evaluated_trace]\<rparr> =
     \<lparr>prop_confidence = JNum 0.5, prop_status = JUndefined, prop_isAnalyzing = False\<rparr>"
  by (simp add: EpisodeRow_def episodeGetAverageConfidence_def evaluated_confidences_def
      map_filter_simps traceGetEvaluation_def evaluated_trace_def empty_trace_def bag_get_def)


section \<open>The ancestor walk\<close>

lemma find_span_member:
  "find_span allSpans sid = Some s \<Longrightarrow> s \<in> set allSpans \<and> span_id s = sid"
  by (auto simp add: find_span_def find_Some_iff)

lemma parent_rel_finite: "finite (parent_rel allSpans)"
proof -
  have "parent_rel allSpans \<subseteq> (\<lambda>s. (span_id s, the (parent_id s))) ` set allSpans"
  proof
    fix e
    assume "e \<in> parent_rel allSpans"
    then obtain x p where e: "e = (x, p)" and "parent_of allSpans x = Some p"
      by (auto simp add: parent_rel_def)
    then obtain s where "find_span allSpans x = Some s" and p: "parent_id s = Some p"
      by (auto simp add: parent_of_def split: option.splits)
    then have "s \<in> set allSpans" and "span_id s = x"
      by (simp_all add: find_span_member)
    with e p show "e \<in> (\<lambda>s. (span_id s, the (parent_id s))) ` set allSpans"
      by force
  qed
  then show ?thesis
    by (rule finite_subset) simp
qed

lemma parent_rel_functional:
  "(x, p) \<in> parent_rel allSpans \<Longrightarrow> (x, q) \<in> parent_rel allSpans \<Longrightarrow> p = q"
  by (simp add: parent_rel_def)

lemma proper_ancestors_no_parent:
  "parent_of allSpans x = None \<Longrightarrow> proper_ancestors allSpans x = {}"
  by (auto simp add: proper_ancestors_def parent_rel_def dest: tranclD)

lemma proper_ancestors_step:
  assumes "parent_of allSpans x = Some p"
  shows "proper_ancestors allSpans x = insert p (proper_ancestors allSpans p)"
proof -
  have edge: "(x, p) \<in> parent_rel allSpans"
    using assms by (simp add: parent_rel_def)
  show ?thesis
  proof (intro set_eqI iffI)
    fix a
    assume "a \<in> proper_ancestors allSpans x"
    then have "(x, a) \<in> (parent_rel allSpans)\<^sup>+"
      by (simp add: proper_ancestors_def)
    then obtain y where y: "(x, y) \<in> parent_rel allSpans" "(y, a) \<in> (parent_rel allSpans)\<^sup>*"
      by (auto dest: tranclD)
    from y(1) edge have "y = p"
      by (rule parent_rel_functional)
    with y(2) have "a = p \<or> (p, a) \<in> (parent_rel allSpans)\<^sup>+"
      by (auto simp add: rtrancl_eq_or_trancl)
    then show "a \<in> insert p (proper_ancestors allSpans p)"
      by (auto simp add: proper_ancestors_def)
  next
    fix a
    assume "a \<in> insert p (proper_ancestors allSpans p)"
    then have "a = p \<or> (p, a) \<in> (parent_rel allSpans)\<^sup>+"
      by (auto simp add: proper_ancestors_def)
    with edge have "(x, a) \<in> (parent_rel allSpans)\<^sup>+"
      by (auto intro: trancl_into_trancl2)
    then show "a \<in> proper_ancestors allSpans x"
      by (simp add: proper_ancestors_def)
  qed
qed

text \<open>
  The walk from the span an id resolves to: in a list without cycles and without empty
  parent ids it leaves the loop, having added the proper ancestors of the id. The
  induction is along the parent relation, which is finite and acyclic, so well-founded.
\<close>

lemma expandAncestors_ancestors:
  assumes acyc: "acyclic (parent_rel allSpans)" and ne: "no_empty_parent allSpans"
  shows "expandAncestors allSpans (find_span allSpans x) nodes
           = Some (nodes \<union> proper_ancestors allSpans x)"
proof -
  have "wf ((parent_rel allSpans)\<inverse>)"
    using parent_rel_finite acyc by (rule finite_acyclic_wf_converse)
  then show ?thesis
  proof (induction x arbitrary: nodes rule: wf_induct_rule)
    case (less x)
    show ?case
    proof (cases "find_span allSpans x")
      case None
      then have "parent_of allSpans x = None"
        by (simp add: parent_of_def)
      with None show ?thesis
        by (subst expandAncestors.simps) (simp add: proper_ancestors_no_parent)
    next
      case found: (Some c)
      show ?thesis
      proof (cases "parent_id c")
        case None
        with found have "parent_of allSpans x = None"
          by (simp add: parent_of_def)
        with found None show ?thesis
          by (subst expandAncestors.simps) (simp add: proper_ancestors_no_parent)
      next
        case (Some p)
        with found have par: "parent_of allSpans x = Some p"
          by (simp add: parent_of_def)
        from found have "c \<in> set allSpans"
          by (simp add: find_span_member)
        with ne Some have nonempty: "p \<noteq> []"
          by (auto simp add: no_empty_parent_def list_all_iff)
        from par have "(p, x) \<in> (parent_rel allSpans)\<inverse>"
          by (simp add: parent_rel_def)
        from less.IH [OF this]
        have "expandAncestors allSpans (find_span allSpans p) (insert p nodes)
                = Some (insert p nodes \<union> proper_ancestors allSpans p)" .
        with found Some nonempty show ?thesis
          by (subst expandAncestors.simps) (simp add: proper_ancestors_step [OF par])
      qed
    qed
  qed
qed

lemma acyclic_no_edges: "acyclic ({} :: ('a \<times> 'a) set)"
  by (simp add: acyclic_def)

lemma scenario_parent_rel: "parent_rel scenario_spans = {(''s2'', ''s1''), (''s3'', ''s2'')}"
  by (auto simp add: parent_rel_def parent_of_def find_span_def scenario_spans_def mk_span_def
      split: if_splits)

lemma scenario_forest: "forest scenario_spans"
  by (simp add: forest_def scenario_parent_rel acyclic_insert rtrancl_insert acyclic_no_edges)
    (simp add: parents_resolve_def scenario_spans_def mk_span_def)

lemma empty_id_parent_rel: "parent_rel empty_id_spans = {(''b'', '''')}"
  by (auto simp add: parent_rel_def parent_of_def find_span_def empty_id_spans_def mk_span_def
      split: if_splits)

lemma empty_child_parent_rel: "parent_rel empty_child_spans = {('''', ''a'')}"
  by (auto simp add: parent_rel_def parent_of_def find_span_def empty_child_spans_def
      mk_span_def split: if_splits)

text \<open>
  Claim C4, as stated, fails where an id is the empty string, which the loop condition and
  the guard on the query parameter read as absent. In \<open>empty_id_spans\<close> the span \<open>b\<close> has
  the root with the empty id as its only proper ancestor, and the walk from \<open>b\<close> adds
  nothing. In \<open>empty_child_spans\<close> the span with the empty id has the proper ancestor
  \<open>a\<close>, and for that preselected id nothing is added either. Both lists are forests.
\<close>

theorem ancestor_walk_misses_empty_ids:
  "forest empty_id_spans
   \<and> proper_ancestors empty_id_spans ''b'' = {''''}
   \<and> expandPreselected empty_id_spans (Some ''b'') {} = Some {}
   \<and> forest empty_child_spans
   \<and> proper_ancestors empty_child_spans '''' = {''a''}
   \<and> expandPreselected empty_child_spans (Some '''') {} = Some {}"
proof -
  have f1: "forest empty_id_spans"
    by (simp add: forest_def empty_id_parent_rel acyclic_insert acyclic_no_edges)
      (simp add: parents_resolve_def empty_id_spans_def mk_span_def)
  have f2: "forest empty_child_spans"
    by (simp add: forest_def empty_child_parent_rel acyclic_insert acyclic_no_edges)
      (simp add: parents_resolve_def empty_child_spans_def mk_span_def)
  have a1: "proper_ancestors empty_id_spans ''b'' = {''''}"
    by (auto simp add: proper_ancestors_def empty_id_parent_rel trancl_insert)
  have a2: "proper_ancestors empty_child_spans '''' = {''a''}"
    by (auto simp add: proper_ancestors_def empty_child_parent_rel trancl_insert)
  have w1: "expandPreselected empty_id_spans (Some ''b'') {} = Some {}"
    by (simp add: expandPreselected_def find_span_def empty_id_spans_def mk_span_def
        expandAncestors.simps)
  have w2: "expandPreselected empty_child_spans (Some '''') {} = Some {}"
    by (simp add: expandPreselected_def)
  from f1 f2 a1 a2 w1 w2 show ?thesis by simp
qed

text \<open>
  Claim C4, amended. For every list of spans that satisfies the forest invariant and in
  which no \<open>parent_id\<close> is the empty string, and for every non-empty preselected span id,
  the ancestor walk terminates and the expanded-node set it leaves is the set it started
  from together with exactly the ids of the proper ancestors of that span.
\<close>

theorem ancestor_walk_expands_proper_ancestors:
  assumes "forest allSpans" and "no_empty_parent allSpans" and "sid \<noteq> []"
  shows "expandPreselected allSpans (Some sid) nodes
           = Some (nodes \<union> proper_ancestors allSpans sid)"
  using assms by (simp add: expandPreselected_def forest_def expandAncestors_ancestors)

theorem ancestor_walk_expands_proper_ancestors_witness:
  "forest scenario_spans \<and> no_empty_parent scenario_spans \<and> ''s3'' \<noteq> []
   \<and> expandPreselected scenario_spans (Some ''s3'') {''T1''} = Some {''T1'', ''s1'', ''s2''}"
proof -
  have ne: "no_empty_parent scenario_spans"
    by (simp add: no_empty_parent_def scenario_spans_def mk_span_def)
  have anc: "proper_ancestors scenario_spans ''s3'' = {''s1'', ''s2''}"
    by (auto simp add: proper_ancestors_def scenario_parent_rel trancl_insert rtrancl_insert)
  from ancestor_walk_expands_proper_ancestors [OF scenario_forest ne, of "''s3''" "{''T1''}"]
  have "expandPreselected scenario_spans (Some ''s3'') {''T1''}
          = Some ({''T1''} \<union> proper_ancestors scenario_spans ''s3'')"
    by simp
  with scenario_forest ne anc show ?thesis
    by auto
qed

text \<open>
  The effect as a whole: for a non-empty list of traces the stored set holds the trace ids
  and the proper ancestors of the preselected span among all spans of the traces.
\<close>

lemma expandEffect_stores:
  assumes "trs \<noteq> []" and "acyclic (parent_rel (concat (map spans trs)))"
    and "no_empty_parent (concat (map spans trs))" and "sid \<noteq> []"
  shows "expandEffect trs (Some sid)
           = Some (Some (set (map trace_id trs)
               \<union> proper_ancestors (concat (map spans trs)) sid))"
  using assms by (simp add: expandEffect_def expandPreselected_def expandAncestors_ancestors)


section \<open>Reconstruction composes deltas from the root\<close>

lemma reconstruct_chain_from:
  assumes "chain_from allSpans parent path" and "path \<noteq> []"
    and "case parent of None \<Rightarrow> prefix = [] | Some p \<Rightarrow> reconstruct allSpans p = Some prefix"
  shows "reconstruct allSpans (span_id (last path))
           = Some (prefix @ concat (map delta_of path))"
  using assms
proof (induction path arbitrary: parent prefix)
  case Nil
  then show ?case by simp
next
  case (Cons s rest)
  from Cons.prems(1) have found: "find_span allSpans (span_id s) = Some s"
    and par: "parent_id s = parent"
    and rest: "chain_from allSpans (Some (span_id s)) rest"
    by simp_all
  have here: "reconstruct allSpans (span_id s) = Some (prefix @ delta_of s)"
  proof (cases parent)
    case None
    with Cons.prems(3) found par show ?thesis
      by (subst reconstruct.simps) simp
  next
    case (Some p)
    with Cons.prems(3) found par show ?thesis
      by (subst reconstruct.simps) simp
  qed
  show ?case
  proof (cases "rest = []")
    case True
    with here show ?thesis by simp
  next
    case False
    from Cons.IH [OF rest False, of "prefix @ delta_of s"] here False
    show ?thesis by simp
  qed
qed

text \<open>
  Claim C2. For a chain whose root \<open>a\<close> carries the delta \<open>Hello \<close> and whose child \<open>b\<close>
  carries \<open>World\<close>, the reconstruction of \<open>b\<close> is \<open>Hello World\<close> and that of \<open>a\<close> is
  \<open>Hello \<close>. In general, along any ancestor chain from a root to a target the
  reconstruction of the target is the concatenation of the deltas of the chain's spans in
  root-to-target order, a span without a delta contributing the empty string.
\<close>

theorem reconstruct_root_to_target:
  "(root_chain allSpans path \<longrightarrow>
      reconstruct allSpans (span_id (last path)) = Some (concat (map delta_of path)))
   \<and> (root_chain allSpans [a, b] \<and> delta_of a = ''Hello '' \<and> delta_of b = ''World'' \<longrightarrow>
        reconstruct allSpans (span_id b) = Some ''Hello World''
        \<and> reconstruct allSpans (span_id a) = Some ''Hello '')
   \<and> (find_span allSpans sid = Some s \<and>
        bag_get (Span.attributes s) ''tracebrain.llm.new_content'' = JUndefined \<longrightarrow>
        delta_of s = [])"
proof (intro conjI impI)
  assume "root_chain allSpans path"
  then show "reconstruct allSpans (span_id (last path)) = Some (concat (map delta_of path))"
    using reconstruct_chain_from [of allSpans None path "[]"]
    by (simp add: root_chain_def)
next
  assume ab: "root_chain allSpans [a, b] \<and> delta_of a = ''Hello '' \<and> delta_of b = ''World''"
  then have "chain_from allSpans None [a, b]"
    by (simp add: root_chain_def)
  with reconstruct_chain_from [of allSpans None "[a, b]" "[]"] ab
  show "reconstruct allSpans (span_id b) = Some ''Hello World''"
    by simp
  from ab have "chain_from allSpans None [a]"
    by (simp add: root_chain_def)
  with reconstruct_chain_from [of allSpans None "[a]" "[]"] ab
  show "reconstruct allSpans (span_id a) = Some ''Hello ''"
    by simp
next
  assume "find_span allSpans sid = Some s \<and>
    bag_get (Span.attributes s) ''tracebrain.llm.new_content'' = JUndefined"
  then show "delta_of s = []"
    by (simp add: delta_of_def)
qed

theorem reconstruct_root_to_target_witness:
  "root_chain [span_b, span_a] [span_a, span_b]
   \<and> delta_of span_a = ''Hello '' \<and> delta_of span_b = ''World''
   \<and> reconstruct [span_b, span_a] ''b'' = Some ''Hello World''
   \<and> reconstruct [span_b, span_a] ''a'' = Some ''Hello ''
   \<and> root_chain scenario_spans scenario_spans
   \<and> find_span scenario_spans ''s1'' = Some (hd scenario_spans)
   \<and> bag_get (Span.attributes (hd scenario_spans)) ''tracebrain.llm.new_content'' = JUndefined
   \<and> reconstruct scenario_spans ''s3'' = Some ''42''"
proof -
  have c: "root_chain [span_b, span_a] [span_a, span_b]"
    by (simp add: root_chain_def find_span_def span_a_def span_b_def mk_span_def)
  have d: "delta_of span_a = ''Hello ''" "delta_of span_b = ''World''"
    by (simp_all add: delta_of_def span_a_def span_b_def mk_span_def bag_get_def)
  have ids: "span_id span_a = ''a''" "span_id span_b = ''b''"
    by (simp_all add: span_a_def span_b_def mk_span_def)
  have sc: "root_chain scenario_spans scenario_spans"
    by (simp add: root_chain_def find_span_def scenario_spans_def mk_span_def)
  have f: "find_span scenario_spans ''s1'' = Some (hd scenario_spans)"
    by (simp add: find_span_def scenario_spans_def mk_span_def)
  have u: "bag_get (Span.attributes (hd scenario_spans)) ''tracebrain.llm.new_content''
      = JUndefined"
    by (simp add: scenario_spans_def mk_span_def bag_get_def)
  have l: "span_id (last scenario_spans) = ''s3''"
    by (simp add: scenario_spans_def mk_span_def)
  from reconstruct_root_to_target
    [of "[span_b, span_a]" "[span_a, span_b]" span_a span_b "''a''" span_a] c d ids
  have r1: "reconstruct [span_b, span_a] ''b'' = Some ''Hello World''"
    and r2: "reconstruct [span_b, span_a] ''a'' = Some ''Hello ''"
    by simp_all
  from reconstruct_root_to_target
    [of scenario_spans scenario_spans span_a span_b "''s1''" "hd scenario_spans"] sc f u
  have e: "delta_of (hd scenario_spans) = []"
    and r: "reconstruct scenario_spans (span_id (last scenario_spans))
      = Some (concat (map delta_of scenario_spans))"
    by simp_all
  have "concat (map delta_of scenario_spans) = ''42''"
    by (simp add: scenario_spans_def mk_span_def delta_of_def bag_get_def)
  with r l have r3: "reconstruct scenario_spans ''s3'' = Some ''42''"
    by simp
  from c d r1 r2 sc f u r3 show ?thesis
    by simp
qed


section \<open>Committed confidence bounds\<close>

subsection \<open>Rounding to the nearest double\<close>

lemma pow2_powr: "pow2 e = 2 powr (of_int e)"
  by (simp add: pow2_def powr_int)

lemma pow2_pos: "0 < pow2 e"
  by (simp add: pow2_powr)

lemma pow2_add: "pow2 (a + b) = pow2 a * pow2 b"
  by (simp add: pow2_powr powr_add)

lemma pow2_double: "2 * pow2 e = pow2 (e + 1)"
  by (simp add: pow2_powr powr_add)

lemma pow2_mono: "a \<le> b \<Longrightarrow> pow2 a \<le> pow2 b"
  by (simp add: pow2_powr)

lemma pow2_strict_mono: "a < b \<Longrightarrow> pow2 a < pow2 b"
  by (simp add: pow2_powr)

lemma binade_bounds:
  assumes "x \<noteq> 0"
  shows "pow2 (binade x) \<le> \<bar>x\<bar> \<and> \<bar>x\<bar> < pow2 (binade x + 1)"
proof (cases "1 \<le> \<bar>x\<bar>")
  case True
  define n where "n = \<lfloor>\<bar>x\<bar>\<rfloor>"
  have n: "0 < n" "of_int n \<le> \<bar>x\<bar>" "\<bar>x\<bar> < of_int n + 1"
    using True by (simp_all add: n_def)
  have b: "binade x = bitlen n - 1"
    using True by (simp add: binade_def n_def)
  have bl: "0 < bitlen n"
    using n(1) bitlen_ge_iff_power [of 1 n] by simp
  from bitlen_bounds [OF n(1)]
  have lo: "(2::int) ^ nat (bitlen n - 1) \<le> n" and hi: "n < 2 ^ nat (bitlen n)"
    by simp_all
  have "pow2 (bitlen n - 1) = of_int (2 ^ nat (bitlen n - 1))"
    using bl by (simp add: pow2_def)
  also have "\<dots> \<le> of_int n"
    using lo by (simp only: of_int_le_iff)
  finally have 1: "pow2 (binade x) \<le> \<bar>x\<bar>"
    using n(2) b by simp
  from hi have "n + 1 \<le> 2 ^ nat (bitlen n)"
    by simp
  then have "real_of_int (n + 1) \<le> of_int (2 ^ nat (bitlen n))"
    by (simp only: of_int_le_iff)
  moreover have "pow2 (bitlen n) = of_int (2 ^ nat (bitlen n))"
    using bl by (simp add: pow2_def)
  ultimately have 2: "\<bar>x\<bar> < pow2 (binade x + 1)"
    using n(3) b by simp
  from 1 2 show ?thesis ..
next
  case False
  define y where "y = 1 / \<bar>x\<bar>"
  have y: "1 < y" "\<bar>x\<bar> = 1 / y" "0 < \<bar>x\<bar>"
    using False assms by (simp_all add: y_def)
  define c where "c = \<lceil>y\<rceil> - 1"
  have c: "0 < c" "of_int c < y" "y \<le> of_int c + 1"
    using y(1) by (simp_all add: c_def) linarith+
  have b: "binade x = - bitlen c"
    using False by (simp add: binade_def c_def y_def)
  have bl: "0 < bitlen c"
    using c(1) bitlen_ge_iff_power [of 1 c] by simp
  from bitlen_bounds [OF c(1)]
  have lo: "(2::int) ^ nat (bitlen c - 1) \<le> c" and hi: "c < 2 ^ nat (bitlen c)"
    by simp_all
  from hi have "c + 1 \<le> 2 ^ nat (bitlen c)"
    by simp
  then have "real_of_int (c + 1) \<le> of_int (2 ^ nat (bitlen c))"
    by (simp only: of_int_le_iff)
  then have yhi: "y \<le> 2 ^ nat (bitlen c)"
    using c(3) by simp
  have "(2::real) ^ nat (bitlen c - 1) \<le> of_int c"
    using lo by (metis of_int_le_iff of_int_numeral of_int_power)
  then have ylo: "2 ^ nat (bitlen c - 1) < y"
    using c(2) by linarith
  have p1: "pow2 (- bitlen c) = 1 / 2 ^ nat (bitlen c)"
    using bl by (simp add: pow2_def)
  have p2: "pow2 (- bitlen c + 1) = 1 / 2 ^ nat (bitlen c - 1)"
  proof (cases "bitlen c = 1")
    case True
    then show ?thesis by (simp add: pow2_def)
  next
    case False
    with bl have "1 < bitlen c" by simp
    then have "nat (- (- bitlen c + 1)) = nat (bitlen c - 1)" "\<not> 0 \<le> - bitlen c + 1"
      by simp_all
    then show ?thesis by (simp add: pow2_def)
  qed
  have 1: "pow2 (binade x) \<le> \<bar>x\<bar>"
    unfolding b p1 y(2) using yhi y(1) by (simp add: frac_le)
  have 2: "\<bar>x\<bar> < pow2 (binade x + 1)"
    unfolding b p2 y(2) using ylo by (simp add: frac_less2)
  from 1 2 show ?thesis ..
qed

lemma binade_le:
  assumes "x \<noteq> 0" "\<bar>x\<bar> < pow2 (E + 1)"
  shows "binade x \<le> E"
proof (rule ccontr)
  assume "\<not> binade x \<le> E"
  then have "E + 1 \<le> binade x" by simp
  then have "pow2 (E + 1) \<le> pow2 (binade x)" by (rule pow2_mono)
  with binade_bounds [OF assms(1)] assms(2) show False by simp
qed

lemma binade_ge:
  assumes "x \<noteq> 0" "pow2 e \<le> \<bar>x\<bar>"
  shows "e \<le> binade x"
proof (rule ccontr)
  assume "\<not> e \<le> binade x"
  then have "binade x + 1 \<le> e" by simp
  then have "pow2 (binade x + 1) \<le> pow2 e" by (rule pow2_mono)
  with binade_bounds [OF assms(1)] assms(2) show False by simp
qed

lemma round_even_cases: "round_even y = \<lfloor>y\<rfloor> \<or> round_even y = \<lfloor>y\<rfloor> + 1"
  by (simp add: round_even_def Let_def)

lemma round_even_err: "\<bar>of_int (round_even y) - y\<bar> \<le> 1/2"
  unfolding round_even_def Let_def by (auto; linarith)

lemma round_even_ge: "of_int n \<le> y \<Longrightarrow> n \<le> round_even y"
proof -
  assume "of_int n \<le> y"
  then have "n \<le> \<lfloor>y\<rfloor>" by (simp add: le_floor_iff)
  with round_even_cases [of y] show ?thesis by auto
qed

lemma round_even_le: "y \<le> of_int n \<Longrightarrow> round_even y \<le> n"
proof (cases "y = of_int n")
  case True
  then show ?thesis by (simp add: round_even_def)
next
  case False
  assume "y \<le> of_int n"
  with False have "y < of_int n" by simp
  then have "\<lfloor>y\<rfloor> < n" by (simp add: floor_less_iff)
  with round_even_cases [of y] show ?thesis by auto
qed

lemma to_double_unfold:
  assumes "x \<noteq> 0"
  defines "q \<equiv> pow2 (max (binade x) (- 1022) - 52)"
  defines "r \<equiv> of_int (round_even (x / q)) * q"
  shows "to_double x = (if 1024 \<le> binade r then (if 0 < x then PosInf else NegInf) else Fin r)"
  using assms(1) by (simp add: to_double_def Let_def q_def r_def)

lemma binade_0: "binade 0 = 0"
  by (simp add: binade_def bitlen_def floorlog_def)

lemma to_double_not_NaN: "to_double x \<noteq> NaN"
  by (simp add: to_double_def Let_def)

lemma to_double_nonneg:
  assumes "0 \<le> x"
  shows "to_double x = PosInf \<or> (\<exists>r. to_double x = Fin r \<and> 0 \<le> r)"
proof (cases "x = 0")
  case True
  then show ?thesis by (simp add: to_double_def)
next
  case False
  define q where "q = pow2 (max (binade x) (- 1022) - 52)"
  define r where "r = of_int (round_even (x / q)) * q"
  have q: "0 < q" by (simp add: q_def pow2_pos)
  with assms have "of_int 0 \<le> x / q" by simp
  then have "0 \<le> round_even (x / q)" by (rule round_even_ge)
  with q have "0 \<le> r" by (simp add: r_def)
  moreover have "0 < x" using False assms by simp
  ultimately show ?thesis
    using to_double_unfold [OF False] by (simp add: q_def r_def)
qed

lemma to_double_nonpos:
  assumes "x \<le> 0"
  shows "to_double x = NegInf \<or> (\<exists>r. to_double x = Fin r \<and> r \<le> 0)"
proof (cases "x = 0")
  case True
  then show ?thesis by (simp add: to_double_def)
next
  case False
  define q where "q = pow2 (max (binade x) (- 1022) - 52)"
  define r where "r = of_int (round_even (x / q)) * q"
  have q: "0 < q" by (simp add: q_def pow2_pos)
  with assms have "x / q \<le> of_int 0" by (simp add: divide_nonpos_pos)
  then have "round_even (x / q) \<le> 0" by (rule round_even_le)
  with q have "r \<le> 0" by (simp add: r_def mult_nonpos_nonneg)
  moreover have "\<not> 0 < x" using assms by simp
  ultimately show ?thesis
    using to_double_unfold [OF False] by (simp add: q_def r_def)
qed

lemma to_double_ge:
  assumes "pow2 e0 \<le> x" "- 1022 \<le> e0"
  shows "to_double x = PosInf \<or> (\<exists>r. to_double x = Fin r \<and> pow2 e0 \<le> r)"
proof -
  have pos: "0 < x" using assms(1) pow2_pos [of e0] by linarith
  then have nz: "x \<noteq> 0" by simp
  define e where "e = binade x"
  have e0: "e0 \<le> e" unfolding e_def using nz assms(1) pos by (intro binade_ge) simp_all
  then have mx: "max (binade x) (- 1022) = e" using assms(2) by (simp add: e_def)
  define q where "q = pow2 (e - 52)"
  define r where "r = of_int (round_even (x / q)) * q"
  have q: "0 < q" by (simp add: q_def pow2_pos)
  have split: "pow2 e = pow2 52 * q"
    using pow2_add [of 52 "e - 52"] by (simp add: q_def)
  have "pow2 e \<le> x" using binade_bounds [OF nz] pos by (simp add: e_def)
  then have "pow2 52 \<le> x / q" using q by (simp add: split pos_le_divide_eq)
  moreover have "pow2 52 = of_int (2 ^ 52)" by (simp add: pow2_def)
  ultimately have "of_int (2 ^ 52) \<le> x / q" by simp
  then have "2 ^ 52 \<le> round_even (x / q)" by (rule round_even_ge)
  then have "real_of_int (2 ^ 52) \<le> of_int (round_even (x / q))" by (simp only: of_int_le_iff)
  then have "pow2 52 \<le> of_int (round_even (x / q))" by (simp add: pow2_def)
  then have "pow2 52 * q \<le> r" using q by (simp add: r_def)
  then have "pow2 e \<le> r" by (simp add: split)
  moreover have "pow2 e0 \<le> pow2 e" using e0 by (rule pow2_mono)
  ultimately have "pow2 e0 \<le> r" by simp
  then show ?thesis
    using to_double_unfold [OF nz] pos by (simp add: mx q_def r_def)
qed

lemma to_double_err:
  assumes "x \<noteq> 0" "\<bar>x\<bar> < pow2 (E + 1)" "- 1022 \<le> E" "E \<le> 1022"
  shows "\<exists>r. to_double x = Fin r \<and> \<bar>r - x\<bar> \<le> pow2 (E - 53)"
proof -
  define e where "e = max (binade x) (- 1022)"
  have eE: "e \<le> E" using binade_le [OF assms(1,2)] assms(3) by (simp add: e_def)
  define q where "q = pow2 (e - 52)"
  define r where "r = of_int (round_even (x / q)) * q"
  have q: "0 < q" by (simp add: q_def pow2_pos)
  have half: "q / 2 = pow2 (e - 53)"
    using pow2_double [of "e - 53"] by (simp add: q_def)
  have "r - x = (of_int (round_even (x / q)) - x / q) * q"
    using q by (simp add: r_def left_diff_distrib)
  then have "\<bar>r - x\<bar> = \<bar>of_int (round_even (x / q)) - x / q\<bar> * \<bar>q\<bar>"
    by (simp only: abs_mult)
  also have "\<dots> = \<bar>of_int (round_even (x / q)) - x / q\<bar> * q"
    using q by simp
  also have "\<dots> \<le> (1/2) * q"
    using round_even_err [of "x / q"] q by (intro mult_right_mono) simp_all
  finally have "\<bar>r - x\<bar> \<le> pow2 (e - 53)" using half by simp
  moreover have "pow2 (e - 53) \<le> pow2 (E - 53)" using eE by (intro pow2_mono) simp
  ultimately have err: "\<bar>r - x\<bar> \<le> pow2 (E - 53)" by simp
  have "pow2 (E - 53) \<le> pow2 (E + 1)" by (intro pow2_mono) simp
  with err assms(2) have "\<bar>r\<bar> < 2 * pow2 (E + 1)" by linarith
  also have "2 * pow2 (E + 1) = pow2 (E + 2)"
    using pow2_double [of "E + 1"] by (simp only: add.assoc one_add_one)
  also have "\<dots> \<le> pow2 1024" using assms(4) by (intro pow2_mono) simp
  finally have "\<bar>r\<bar> < pow2 (1023 + 1)" by simp
  then have "binade r \<le> 1023"
    by (cases "r = 0") (simp_all add: binade_0 binade_le)
  then have "\<not> 1024 \<le> binade r" by simp
  then have "to_double x = Fin r"
    using to_double_unfold [OF assms(1)] by (simp add: e_def q_def r_def)
  with err show ?thesis by simp
qed

lemma to_double_0: "to_double 0 = Fin 0"
  by (simp add: to_double_def)

lemma binade_1: "binade 1 = 0"
proof -
  have "binade 1 \<le> 0" by (rule binade_le) (simp_all add: pow2_def)
  moreover have "0 \<le> binade 1" by (rule binade_ge) (simp_all add: pow2_def)
  ultimately show ?thesis by simp
qed

lemma to_double_1: "to_double 1 = Fin 1"
  by (simp add: to_double_def binade_1 pow2_def round_even_def)

subsection \<open>Scaling, rounding and clamping\<close>

lemma pow2_values:
  "pow2 0 = 1" "pow2 7 = 128" "pow2 (- 47) = 1 / 2 ^ 47" "pow2 (- 54) = 1 / 2 ^ 54"
  by (simp_all add: pow2_def)

lemma round_times_100:
  "(v < 0 \<longrightarrow> Math_round (js_mult (Fin v) (Fin 100)) = NegInf
        \<or> (\<exists>m. Math_round (js_mult (Fin v) (Fin 100)) = Fin (of_int m) \<and> m \<le> 0))
   \<and> (1 < v \<longrightarrow> Math_round (js_mult (Fin v) (Fin 100)) = PosInf
        \<or> (\<exists>m. Math_round (js_mult (Fin v) (Fin 100)) = Fin (of_int m) \<and> 100 \<le> m))
   \<and> (0 \<le> v \<and> v \<le> 1 \<longrightarrow>
        (\<exists>m. Math_round (js_mult (Fin v) (Fin 100)) = Fin (of_int m) \<and> 0 \<le> m \<and> m \<le> 100
            \<and> \<bar>of_int m - 100 * v\<bar> \<le> 1/2 + 1 / 2 ^ 47))"
proof -
  have mult: "js_mult (Fin v) (Fin 100) = to_double (v * 100)"
    by (simp add: js_mult_def)
  have neg: ?thesis if "v < 0"
  proof -
    from that have "v * 100 \<le> 0" by simp
    from to_double_nonpos [OF this] consider "to_double (v * 100) = NegInf"
      | a where "to_double (v * 100) = Fin a" "a \<le> 0" by blast
    then have "Math_round (js_mult (Fin v) (Fin 100)) = NegInf
        \<or> (\<exists>m. Math_round (js_mult (Fin v) (Fin 100)) = Fin (of_int m) \<and> m \<le> 0)"
    proof cases
      case 1
      then show ?thesis by (simp add: mult Math_round_def)
    next
      case 2
      from 2(2) have "\<lfloor>a + 1/2\<rfloor> \<le> 0" by (simp add: floor_le_iff)
      with 2(1) show ?thesis by (simp add: mult Math_round_def)
    qed
    with that show ?thesis by simp
  qed
  have mid: ?thesis if "0 \<le> v" "v \<le> 1"
  proof (cases "v = 0")
    case True
    have "Math_round (js_mult (Fin 0) (Fin 100)) = Fin (of_int 0)"
      by (simp add: js_mult_def to_double_0 Math_round_def)
    with True show ?thesis by auto
  next
    case False
    with that have nz: "v * 100 \<noteq> 0" and lt: "\<bar>v * 100\<bar> < pow2 (6 + 1)"
      by (simp_all add: pow2_values)
    from to_double_err [OF nz lt] obtain a where
      a: "to_double (v * 100) = Fin a" "\<bar>a - v * 100\<bar> \<le> pow2 (6 - 53)"
      by auto
    then have a': "\<bar>a - v * 100\<bar> \<le> 1 / 2 ^ 47" by (simp add: pow2_values)
    have small: "(1::real) / 2 ^ 47 \<le> 1/4" by simp
    define m where "m = \<lfloor>a + 1/2\<rfloor>"
    have m: "of_int m \<le> a + 1/2" "a + 1/2 < of_int m + 1"
      by (simp_all add: m_def)
    have lo: "- (1/4) \<le> a" using a' small that(1) by linarith
    have hi: "a \<le> 100 + 1/4" using a' small that(2) by linarith
    have "0 \<le> m" unfolding m_def using lo by (simp add: le_floor_iff)
    moreover have "m \<le> 100" unfolding m_def using hi by (simp add: floor_le_iff)
    moreover have "\<bar>of_int m - 100 * v\<bar> \<le> 1/2 + 1 / 2 ^ 47"
      using m a' by linarith
    moreover have "Math_round (js_mult (Fin v) (Fin 100)) = Fin (of_int m)"
      by (simp add: mult a(1) Math_round_def m_def)
    ultimately show ?thesis using that by auto
  qed
  have big: ?thesis if "1 < v"
  proof -
    have "Math_round (js_mult (Fin v) (Fin 100)) = PosInf
        \<or> (\<exists>m. Math_round (js_mult (Fin v) (Fin 100)) = Fin (of_int m) \<and> 100 \<le> m)"
    proof (cases "v * 100 < 128")
      case True
      with that have nz: "v * 100 \<noteq> 0" and lt: "\<bar>v * 100\<bar> < pow2 (6 + 1)"
        by (simp_all add: pow2_values)
      from to_double_err [OF nz lt] obtain a where
        a: "to_double (v * 100) = Fin a" "\<bar>a - v * 100\<bar> \<le> pow2 (6 - 53)"
        by auto
      then have a': "\<bar>a - v * 100\<bar> \<le> 1 / 2 ^ 47" by (simp add: pow2_values)
      have small: "(1::real) / 2 ^ 47 \<le> 1/4" by simp
      have "100 - 1/4 \<le> a" using a' small that by linarith
      then have "100 \<le> \<lfloor>a + 1/2\<rfloor>" by (simp add: le_floor_iff)
      then show ?thesis by (simp add: mult a(1) Math_round_def)
    next
      case False
      then have "pow2 7 \<le> v * 100" by (simp add: pow2_values)
      from to_double_ge [OF this] consider "to_double (v * 100) = PosInf"
        | a where "to_double (v * 100) = Fin a" "pow2 7 \<le> a" by auto
      then show ?thesis
      proof cases
        case 1
        then show ?thesis by (simp add: mult Math_round_def)
      next
        case 2
        from 2(2) have "100 \<le> \<lfloor>a + 1/2\<rfloor>" by (simp add: le_floor_iff pow2_values)
        with 2(1) show ?thesis by (simp add: mult Math_round_def)
      qed
    qed
    with that show ?thesis by simp
  qed
  consider "v < 0" | "1 < v" | "0 \<le> v" "v \<le> 1" by linarith
  then show ?thesis
  proof cases
    case 1
    then show ?thesis by (rule neg)
  next
    case 2
    then show ?thesis by (rule big)
  next
    case 3
    then show ?thesis by (rule mid)
  qed
qed

lemma clamp_low:
  assumes "m \<le> 0"
  shows "Math_min (Fin 1) (Math_max (Fin 0) (js_div (Fin (of_int m)) (Fin 100))) = Fin 0"
proof -
  have div: "js_div (Fin (of_int m)) (Fin 100) = to_double (of_int m / 100)"
    by (simp add: js_div_def)
  from assms have "real_of_int m / 100 \<le> 0" by simp
  from to_double_nonpos [OF this] show ?thesis
    by (auto simp add: div)
qed

lemma clamp_high:
  assumes "100 \<le> m"
  shows "Math_min (Fin 1) (Math_max (Fin 0) (js_div (Fin (of_int m)) (Fin 100))) = Fin 1"
proof -
  have div: "js_div (Fin (of_int m)) (Fin 100) = to_double (of_int m / 100)"
    by (simp add: js_div_def)
  from assms have "pow2 0 \<le> real_of_int m / 100" by (simp add: pow2_values)
  from to_double_ge [OF this] show ?thesis
    by (auto simp add: div pow2_values)
qed

lemma clamp_mid:
  assumes "0 \<le> m" "m \<le> 100"
  shows "\<exists>r. Math_min (Fin 1) (Math_max (Fin 0) (js_div (Fin (of_int m)) (Fin 100))) = Fin r
           \<and> to_double (of_int m / 100) = Fin r \<and> 0 \<le> r \<and> r \<le> 1
           \<and> \<bar>r - of_int m / 100\<bar> \<le> 1 / 2 ^ 54"
proof -
  have div: "js_div (Fin (of_int m)) (Fin 100) = to_double (of_int m / 100)"
    by (simp add: js_div_def)
  consider "m = 0" | "m = 100" | "0 < m" "m < 100" using assms by linarith
  then show ?thesis
  proof cases
    case 1
    then show ?thesis by (simp add: js_div_def to_double_0)
  next
    case 2
    then show ?thesis by (simp add: js_div_def to_double_1)
  next
    case 3
    then have "m \<le> 99" by simp
    then have m99: "real_of_int m \<le> 99" by (simp only: of_int_le_iff of_int_numeral)
    have nz: "real_of_int m / 100 \<noteq> 0" and lt: "\<bar>real_of_int m / 100\<bar> < pow2 (- 1 + 1)"
      using 3 by (simp_all add: pow2_values)
    from to_double_err [OF nz lt] obtain r where
      r: "to_double (of_int m / 100) = Fin r" "\<bar>r - of_int m / 100\<bar> \<le> pow2 (- 1 - 53)"
      by auto
    then have r': "\<bar>r - of_int m / 100\<bar> \<le> 1 / 2 ^ 54" by (simp add: pow2_values)
    have "0 \<le> real_of_int m / 100" using 3 by simp
    from to_double_nonneg [OF this] r(1) have r0: "0 \<le> r" by simp
    have small: "(1::real) / 2 ^ 54 \<le> 1/100" by simp
    have r1: "r \<le> 1" using r' small m99 by linarith
    from r0 r1 have "Math_min (Fin 1) (Math_max (Fin 0) (Fin r)) = Fin r"
      by (simp add: max_def min_def)
    with r(1) r' r0 r1 show ?thesis by (simp add: div)
  qed
qed

lemma clamp_result:
  assumes "v \<noteq> NaN"
  shows "\<exists>x. Math_min (Fin 1)
             (Math_max (Fin 0) (js_div (Math_round (js_mult v (Fin 100))) (Fin 100))) = Fin x
           \<and> 0 \<le> x \<and> x \<le> 1 \<and> hundredth (Fin x)
           \<and> (\<forall>y. v = Fin y \<longrightarrow> \<bar>x - clamp_unit y\<bar> \<le> 1/200 + 1 / 2 ^ 52)
           \<and> (v = PosInf \<longrightarrow> x = 1) \<and> (v = NegInf \<longrightarrow> x = 0)"
proof -
  have h0: "hundredth (Fin 0)"
    unfolding hundredth_def using to_double_0 by (intro bexI [of _ 0]) simp_all
  have h1: "hundredth (Fin 1)"
    unfolding hundredth_def using to_double_1 by (intro bexI [of _ 100]) simp_all
  show ?thesis
  proof (cases v)
    case NaN
    with assms show ?thesis by simp
  next
    case PosInf
    then show ?thesis
      using h1 by (simp add: js_mult_def js_div_def js_sign_def js_infinity_def Math_round_def)
  next
    case NegInf
    then show ?thesis
      using h0 by (simp add: js_mult_def js_div_def js_sign_def js_infinity_def Math_round_def)
  next
    case (Fin y)
    consider "y < 0" | "1 < y" | "0 \<le> y" "y \<le> 1" by linarith
    then show ?thesis
    proof cases
      case 1
      with round_times_100 [of y]
      have "Math_round (js_mult (Fin y) (Fin 100)) = NegInf
        \<or> (\<exists>m. Math_round (js_mult (Fin y) (Fin 100)) = Fin (of_int m) \<and> m \<le> 0)"
        by blast
      then have "Math_min (Fin 1)
        (Math_max (Fin 0) (js_div (Math_round (js_mult (Fin y) (Fin 100))) (Fin 100))) = Fin 0"
        using clamp_low by (auto simp add: js_div_def js_sign_def js_infinity_def)
      with 1 h0 show ?thesis by (simp add: Fin clamp_unit_def)
    next
      case 2
      with round_times_100 [of y]
      have "Math_round (js_mult (Fin y) (Fin 100)) = PosInf
        \<or> (\<exists>m. Math_round (js_mult (Fin y) (Fin 100)) = Fin (of_int m) \<and> 100 \<le> m)"
        by blast
      then have "Math_min (Fin 1)
        (Math_max (Fin 0) (js_div (Math_round (js_mult (Fin y) (Fin 100))) (Fin 100))) = Fin 1"
        using clamp_high by (auto simp add: js_div_def js_sign_def js_infinity_def)
      with 2 h1 show ?thesis by (simp add: Fin clamp_unit_def)
    next
      case 3
      with round_times_100 [of y] obtain m where
        m: "Math_round (js_mult (Fin y) (Fin 100)) = Fin (of_int m)" "0 \<le> m" "m \<le> 100"
          "\<bar>of_int m - 100 * y\<bar> \<le> 1/2 + 1 / 2 ^ 47"
        by blast
      from clamp_mid [OF m(2,3)] obtain r where
        r: "Math_min (Fin 1) (Math_max (Fin 0) (js_div (Fin (of_int m)) (Fin 100))) = Fin r"
          "to_double (of_int m / 100) = Fin r" "0 \<le> r" "r \<le> 1"
          "\<bar>r - of_int m / 100\<bar> \<le> 1 / 2 ^ 54"
        by blast
      have hr: "hundredth (Fin r)"
        unfolding hundredth_def using r(2) m(2,3) by (intro bexI [of _ m]) simp_all
      have "\<bar>of_int m / 100 - y\<bar> \<le> 1/200 + 1 / (100 * 2 ^ 47)"
        using m(4) by (simp add: field_simps abs_le_iff)
      moreover have "(1::real) / 2 ^ 54 + 1 / (100 * 2 ^ 47) \<le> 1 / 2 ^ 52"
        by simp
      ultimately have "\<bar>r - y\<bar> \<le> 1/200 + 1 / 2 ^ 52"
        using r(5) by linarith
      moreover have "clamp_unit y = y"
        using 3 by (simp add: clamp_unit_def)
      ultimately show ?thesis
        using r(1,3,4) hr by (simp add: Fin m(1))
    qed
  qed
qed

subsection \<open>The text of a number input is a numeric literal\<close>

lemma decimal_digit_facts:
  assumes "c \<in> set ''0123456789''"
  shows "\<exists>d. digit_of c = Some d \<and> d < 10"
    and "c \<noteq> CHR ''.''" and "c \<noteq> CHR ''e''" and "c \<noteq> CHR ''E''"
    and "c \<noteq> CHR ''+''" and "c \<noteq> CHR ''-''" and "c \<noteq> CHR ''I''"
    and "c \<noteq> CHR ''x''" and "c \<noteq> CHR ''X''" and "c \<noteq> CHR ''o''" and "c \<noteq> CHR ''O''"
    and "c \<noteq> CHR ''b''" and "c \<noteq> CHR ''B''" and "\<not> is_ws c"
proof -
  from assms have "c = CHR ''0'' \<or> c = CHR ''1'' \<or> c = CHR ''2'' \<or> c = CHR ''3''
      \<or> c = CHR ''4'' \<or> c = CHR ''5'' \<or> c = CHR ''6'' \<or> c = CHR ''7''
      \<or> c = CHR ''8'' \<or> c = CHR ''9''"
    by simp
  then consider "c = CHR ''0''" | "c = CHR ''1''" | "c = CHR ''2''" | "c = CHR ''3''"
    | "c = CHR ''4''" | "c = CHR ''5''" | "c = CHR ''6''" | "c = CHR ''7''"
    | "c = CHR ''8''" | "c = CHR ''9''"
    by blast
  then have "(\<exists>d. digit_of c = Some d \<and> d < 10)
      \<and> c \<noteq> CHR ''.'' \<and> c \<noteq> CHR ''e'' \<and> c \<noteq> CHR ''E''
      \<and> c \<noteq> CHR ''+'' \<and> c \<noteq> CHR ''-'' \<and> c \<noteq> CHR ''I''
      \<and> c \<noteq> CHR ''x'' \<and> c \<noteq> CHR ''X'' \<and> c \<noteq> CHR ''o'' \<and> c \<noteq> CHR ''O''
      \<and> c \<noteq> CHR ''b'' \<and> c \<noteq> CHR ''B'' \<and> \<not> is_ws c"
    by cases (simp_all add: digit_of_def is_ws_def)
  then show "\<exists>d. digit_of c = Some d \<and> d < 10"
    and "c \<noteq> CHR ''.''" and "c \<noteq> CHR ''e''" and "c \<noteq> CHR ''E''"
    and "c \<noteq> CHR ''+''" and "c \<noteq> CHR ''-''" and "c \<noteq> CHR ''I''"
    and "c \<noteq> CHR ''x''" and "c \<noteq> CHR ''X''" and "c \<noteq> CHR ''o''" and "c \<noteq> CHR ''O''"
    and "c \<noteq> CHR ''b''" and "c \<noteq> CHR ''B''" and "\<not> is_ws c"
    by simp_all
qed

lemma digits_acc_decimal:
  "decimal_digits ds \<Longrightarrow> \<exists>n. digits_acc 10 acc ds = Some n"
proof (induction ds arbitrary: acc)
  case Nil
  then show ?case by simp
next
  case (Cons c cs)
  from Cons.prems have c: "c \<in> set ''0123456789''" and cs: "decimal_digits cs"
    by (simp_all add: decimal_digits_def)
  from decimal_digit_facts(1) [OF c] obtain d where d: "digit_of c = Some d" "d < 10"
    by blast
  from Cons.IH [OF cs, of "acc * 10 + d"] d show ?case
    by simp
qed

lemma digits_value_decimal:
  "decimal_digits ds \<Longrightarrow> ds \<noteq> [] \<Longrightarrow> \<exists>n. digits_value 10 ds = Some n"
  using digits_acc_decimal [of ds 0] by (simp add: digits_value_def)

lemma decimal_digits_append:
  "decimal_digits (xs @ ys) \<longleftrightarrow> decimal_digits xs \<and> decimal_digits ys"
  unfolding decimal_digits_def by (simp only: set_append ball_Un)

lemma dropWhile_none: "\<forall>c \<in> set s. \<not> P c \<Longrightarrow> dropWhile P s = s"
  by (cases s) simp_all

lemma mantissa_valid:
  assumes "decimal_digits ip"
    and "fr = [] \<or> (\<exists>fd. fr = CHR ''.'' # fd \<and> fd \<noteq> [] \<and> decimal_digits fd)"
    and "ip \<noteq> [] \<or> fr \<noteq> []"
  shows "\<exists>n k. mantissa (ip @ fr) = Some (n, k)"
proof -
  have nodot: "\<forall>c \<in> set ip. c \<noteq> CHR ''.''"
    using assms(1) decimal_digit_facts(2) by (auto simp add: decimal_digits_def)
  show ?thesis
  proof (cases "fr = []")
    case True
    with assms(3) have ne: "ip \<noteq> []" by simp
    have tw: "takeWhile (\<lambda>c. c \<noteq> CHR ''.'') ip = ip"
      using nodot by (simp add: takeWhile_eq_all_conv)
    have dw: "dropWhile (\<lambda>c. c \<noteq> CHR ''.'') ip = []"
      using nodot by (simp add: dropWhile_eq_Nil_conv)
    from digits_value_decimal [OF assms(1) ne] obtain n where "digits_value 10 ip = Some n"
      by blast
    then show ?thesis
      using True by (simp add: mantissa_def tw dw)
  next
    case False
    with assms(2) obtain fd where fd: "fr = CHR ''.'' # fd" "fd \<noteq> []" "decimal_digits fd"
      by blast
    have tw: "takeWhile (\<lambda>c. c \<noteq> CHR ''.'') (ip @ CHR ''.'' # fd) = ip"
      using nodot by (simp add: takeWhile_append2)
    have dw: "dropWhile (\<lambda>c. c \<noteq> CHR ''.'') (ip @ CHR ''.'' # fd) = CHR ''.'' # fd"
      using nodot by (simp add: dropWhile_append2)
    have "decimal_digits (ip @ fd)"
      using assms(1) fd(3) by (simp add: decimal_digits_append)
    from digits_acc_decimal [OF this, of 0] obtain n where "digits_acc 10 0 (ip @ fd) = Some n"
      by blast
    then show ?thesis
      using fd(2) by (simp add: mantissa_def fd(1) tw dw Let_def)
  qed
qed

lemma signed_integer_valid:
  assumes "es = [] \<or> es = ''+'' \<or> es = ''-''" "ed \<noteq> []" "decimal_digits ed"
  shows "\<exists>e. signed_integer (es @ ed) = Some e"
proof -
  from digits_value_decimal [OF assms(3,2)] obtain n where n: "digits_value 10 ed = Some n"
    by blast
  from assms(2) obtain c cs where ed: "ed = c # cs"
    by (cases ed) simp_all
  with assms(3) have "c \<in> set ''0123456789''"
    by (simp add: decimal_digits_def)
  from decimal_digit_facts(5,6) [OF this] have c: "c \<noteq> CHR ''+''" "c \<noteq> CHR ''-''" .
  from assms(1) consider "es = []" | "es = ''+''" | "es = ''-''" by blast
  then show ?thesis
  proof cases
    case 1
    then show ?thesis using n c by (simp add: signed_integer_def ed)
  next
    case 2
    then show ?thesis using n by (simp add: signed_integer_def)
  next
    case 3
    then show ?thesis using n by (simp add: signed_integer_def)
  qed
qed

lemma unsigned_decimal_valid:
  assumes "decimal_digits ip"
    and "fr = [] \<or> (\<exists>fd. fr = CHR ''.'' # fd \<and> fd \<noteq> [] \<and> decimal_digits fd)"
    and "ip \<noteq> [] \<or> fr \<noteq> []"
    and "ex = [] \<or>
         (\<exists>c es ed. ex = c # es @ ed \<and> (c = CHR ''e'' \<or> c = CHR ''E'')
            \<and> (es = [] \<or> es = ''+'' \<or> es = ''-'') \<and> ed \<noteq> [] \<and> decimal_digits ed)"
  shows "\<exists>v. unsigned_decimal (ip @ fr @ ex) = Some (Fin v)"
proof -
  define body where "body = ip @ fr"
  have ip_chars: "\<forall>c \<in> set ip. \<not> (c = CHR ''e'' \<or> c = CHR ''E'') \<and> c \<noteq> CHR ''I''"
    using assms(1) decimal_digit_facts(3,4,7) by (auto simp add: decimal_digits_def)
  have fr_chars: "\<forall>c \<in> set fr. \<not> (c = CHR ''e'' \<or> c = CHR ''E'') \<and> c \<noteq> CHR ''I''"
  proof (cases "fr = []")
    case True
    then show ?thesis by simp
  next
    case False
    with assms(2) obtain fd where fd: "fr = CHR ''.'' # fd" "decimal_digits fd"
      by blast
    have "\<forall>c \<in> set fd. \<not> (c = CHR ''e'' \<or> c = CHR ''E'') \<and> c \<noteq> CHR ''I''"
      using fd(2) decimal_digit_facts(3,4,7) by (auto simp add: decimal_digits_def)
    then show ?thesis
      by (simp add: fd(1))
  qed
  have body_chars: "\<forall>c \<in> set body. \<not> (c = CHR ''e'' \<or> c = CHR ''E'') \<and> c \<noteq> CHR ''I''"
    using ip_chars fr_chars by (auto simp add: body_def)
  have body_ne: "body \<noteq> []"
    using assms(3) by (simp add: body_def)
  then obtain b bs where body: "body = b # bs"
    by (cases body) simp_all
  with body_chars have "b \<noteq> CHR ''I''"
    by simp
  then have not_inf: "body @ ex \<noteq> ''Infinity''"
    by (simp add: body)
  from mantissa_valid [OF assms(1,2,3)] obtain n k where m: "mantissa body = Some (n, k)"
    by (auto simp add: body_def)
  have ex_split: "takeWhile (\<lambda>c. \<not> (c = CHR ''e'' \<or> c = CHR ''E'')) (body @ ex) = body
      \<and> dropWhile (\<lambda>c. \<not> (c = CHR ''e'' \<or> c = CHR ''E'')) (body @ ex) = ex"
  proof (cases "ex = []")
    case True
    then show ?thesis
      using body_chars by (simp add: takeWhile_eq_all_conv dropWhile_eq_Nil_conv)
  next
    case False
    with assms(4) obtain c rest where "ex = c # rest" "c = CHR ''e'' \<or> c = CHR ''E''"
      by auto
    then show ?thesis
      using body_chars by (auto simp add: takeWhile_append2 dropWhile_append2)
  qed
  then have tw: "takeWhile (\<lambda>c. \<not> (c = CHR ''e'' \<or> c = CHR ''E'')) (body @ ex) = body"
    and dw: "dropWhile (\<lambda>c. \<not> (c = CHR ''e'' \<or> c = CHR ''E'')) (body @ ex) = ex"
    by simp_all
  have "\<exists>e. (if ex = [] then Some 0 else signed_integer (tl ex)) = Some e"
  proof (cases "ex = []")
    case True
    then show ?thesis by simp
  next
    case False
    with assms(4) obtain c es ed where
      e: "ex = c # es @ ed" "es = [] \<or> es = ''+'' \<or> es = ''-''" "ed \<noteq> []" "decimal_digits ed"
      by blast
    from signed_integer_valid [OF e(2,3,4)] show ?thesis
      by (simp add: e(1))
  qed
  then obtain e where e: "(if ex = [] then Some 0 else signed_integer (tl ex)) = Some e"
    by blast
  have ud: "unsigned_decimal (body @ ex) =
      (if body @ ex = ''Infinity'' then Some PosInf
       else case (mantissa body, if ex = [] then Some 0 else signed_integer (tl ex)) of
              (Some (n, k), Some e) \<Rightarrow> Some (Fin (scale10 (real n) (e - int k)))
            | _ \<Rightarrow> None)"
    by (simp only: unsigned_decimal_def Let_def tw dw)
  have "unsigned_decimal (body @ ex) = Some (Fin (scale10 (real n) (e - int k)))"
    unfolding ud using not_inf by (simp only: if_False m e) simp
  then show ?thesis
    by (simp add: body_def)
qed

subsection \<open>The committed bound\<close>

lemma syntax_char_facts:
  "\<not> is_ws (CHR ''.'')" "\<not> is_ws (CHR ''e'')" "\<not> is_ws (CHR ''E'')"
  "\<not> is_ws (CHR ''+'')" "\<not> is_ws (CHR ''-'')"
  by (simp_all add: is_ws_def)

lemma trim_none: "\<forall>c \<in> set s. \<not> is_ws c \<Longrightarrow> trim s = s"
  by (simp add: trim_def dropWhile_none)

lemma Number_valid:
  assumes "valid_floating_point_number s"
  shows "\<exists>v. Number s = to_double v"
proof -
  from assms obtain sg ip fr ex where
    s: "s = sg @ ip @ fr @ ex" and sg: "sg = [] \<or> sg = ''-''" and ip: "decimal_digits ip"
    and fr: "fr = [] \<or> (\<exists>fd. fr = CHR ''.'' # fd \<and> fd \<noteq> [] \<and> decimal_digits fd)"
    and ne: "ip \<noteq> [] \<or> fr \<noteq> []"
    and ex: "ex = [] \<or>
         (\<exists>c es ed. ex = c # es @ ed \<and> (c = CHR ''e'' \<or> c = CHR ''E'')
            \<and> (es = [] \<or> es = ''+'' \<or> es = ''-'') \<and> ed \<noteq> [] \<and> decimal_digits ed)"
    unfolding valid_floating_point_number_def by blast
  define rest where "rest = ip @ fr @ ex"
  define plain where "plain = (\<lambda>c. \<not> is_ws c \<and> c \<noteq> CHR ''x'' \<and> c \<noteq> CHR ''X''
    \<and> c \<noteq> CHR ''o'' \<and> c \<noteq> CHR ''O'' \<and> c \<noteq> CHR ''b'' \<and> c \<noteq> CHR ''B'')"
  have digits_plain: "\<forall>c \<in> set ds. plain c" if "decimal_digits ds" for ds
    using that decimal_digit_facts(8-14) by (auto simp add: decimal_digits_def plain_def)
  have marks_plain: "plain (CHR ''.'')" "plain (CHR ''e'')" "plain (CHR ''E'')"
    "plain (CHR ''+'')" "plain (CHR ''-'')"
    by (simp_all add: plain_def syntax_char_facts)
  have fr_plain: "\<forall>c \<in> set fr. plain c"
    using fr digits_plain marks_plain by auto
  have ex_plain: "\<forall>c \<in> set ex. plain c"
    using ex digits_plain marks_plain by auto
  have rest_plain: "\<forall>c \<in> set rest. plain c"
    using digits_plain [OF ip] fr_plain ex_plain by (auto simp add: rest_def)
  have sg_plain: "\<forall>c \<in> set sg. plain c"
    using sg marks_plain by auto
  have s_plain: "\<forall>c \<in> set s. plain c"
    using sg_plain rest_plain by (auto simp add: s rest_def)
  then have tr: "trim s = s"
    by (intro trim_none) (simp add: plain_def)
  from ne have rest_ne: "rest \<noteq> []"
    by (auto simp add: rest_def)
  then obtain h t where rest: "rest = h # t"
    by (cases rest) simp_all
  have h: "h \<noteq> CHR ''+''" "h \<noteq> CHR ''-''"
  proof -
    have "h \<in> set ''0123456789'' \<or> h = CHR ''.''"
    proof (cases ip)
      case Nil
      with ne fr rest show ?thesis by (auto simp add: rest_def)
    next
      case (Cons a as)
      with ip rest show ?thesis by (simp add: rest_def decimal_digits_def)
    qed
    then show "h \<noteq> CHR ''+''" "h \<noteq> CHR ''-''"
      using decimal_digit_facts(5,6) [of h] by auto
  qed
  from unsigned_decimal_valid [OF ip fr ne ex] obtain v where
    ud: "unsigned_decimal rest = Some (Fin v)"
    by (auto simp add: rest_def)
  have plain_rest: "numeric_literal rest = unsigned_decimal rest"
  proof (cases t)
    case Nil
    then show ?thesis by (simp add: numeric_literal_def rest)
  next
    case (Cons d ds)
    with rest_plain rest have "plain d" by simp
    then show ?thesis
      using h by (simp add: numeric_literal_def rest Cons plain_def)
  qed
  have "\<exists>w. numeric_literal s = Some (Fin w)"
  proof (cases "sg = []")
    case True
    then show ?thesis using plain_rest ud by (simp add: s rest_def)
  next
    case False
    with sg have "s = CHR ''-'' # h # t"
      by (simp add: s rest_def [symmetric] rest)
    then show ?thesis
      using ud by (simp add: numeric_literal_def rest js_neg_def)
  qed
  then obtain w where "numeric_literal s = Some (Fin w)"
    by blast
  moreover have "s \<noteq> []"
    using rest_ne by (simp add: s rest_def)
  ultimately have "Number s = to_double w"
    by (simp add: Number_def tr round_result_def)
  then show ?thesis ..
qed

lemma commitMin_fields:
  "minConfidence (commitMin f raw) =
     (if raw = [] then None
      else Some (Math_min (Fin 1)
        (Math_max (Fin 0) (js_div (Math_round (js_mult (Number raw) (Fin 100))) (Fin 100)))))"
  "maxConfidence (commitMin f raw) = maxConfidence f"
  by (simp_all add: commitMin_def set_filters_def no_patch_def Let_def)

lemma commitMax_fields:
  "maxConfidence (commitMax f raw) =
     (if raw = [] then None
      else Some (Math_min (Fin 1)
        (Math_max (Fin 0) (js_div (Math_round (js_mult (Number raw) (Fin 100))) (Fin 100)))))"
  "minConfidence (commitMax f raw) = minConfidence f"
  by (simp_all add: commitMax_def set_filters_def no_patch_def Let_def)

lemma commit_field:
  "minConfidenceLt (commit ef raw) =
     (if raw = [] then None
      else Some (Math_min (Fin 1)
        (Math_max (Fin 0) (js_div (Math_round (js_mult (Number raw) (Fin 100))) (Fin 100)))))"
  by (simp add: commit_def Let_def)

lemma clamp_rounded_bound:
  assumes "raw \<noteq> []" "Number raw \<noteq> NaN"
  shows "rounded_bound raw (Some (Math_min (Fin 1)
    (Math_max (Fin 0) (js_div (Math_round (js_mult (Number raw) (Fin 100))) (Fin 100)))))"
proof -
  from clamp_result [OF assms(2)] obtain x where
    x: "Math_min (Fin 1)
         (Math_max (Fin 0) (js_div (Math_round (js_mult (Number raw) (Fin 100))) (Fin 100)))
        = Fin x"
      "0 \<le> x" "x \<le> 1" "hundredth (Fin x)"
      "\<forall>y. Number raw = Fin y \<longrightarrow> \<bar>x - clamp_unit y\<bar> \<le> 1/200 + 1 / 2 ^ 52"
      "Number raw = PosInf \<longrightarrow> x = 1" "Number raw = NegInf \<longrightarrow> x = 0"
    by blast
  have "case Number raw of
          Fin y \<Rightarrow> \<bar>x - clamp_unit y\<bar> \<le> 1/200 + 1 / 2 ^ 52
        | PosInf \<Rightarrow> x = 1 | NegInf \<Rightarrow> x = 0 | NaN \<Rightarrow> False"
    using x(5,6,7) assms(2) by (cases "Number raw") simp_all
  with x(1,2,3,4) assms(1) show ?thesis
    unfolding rounded_bound_def by (simp only: if_False) blast
qed

text \<open>
  Claim C7. For every text committed to the minimum or maximum confidence field of the
  trace panel, or to the one field of the episodes panel (the value of a number input:
  empty, or a valid floating-point number), the stored bound is \<^verbatim>\<open>null\<close> for the empty
  text and otherwise a number of [0,1] of two decimal places, namely \<^verbatim>\<open>Number(raw)\<close>
  clamped into [0,1] and rounded to the hundredth; the other bound is left as it was. So
  both bounds, whenever they are not \<^verbatim>\<open>null\<close>, lie within [0,1].
\<close>

theorem commit_confidence_in_range:
  "number_input_value raw \<Longrightarrow>
     rounded_bound raw (minConfidence (commitMin f raw))
     \<and> rounded_bound raw (maxConfidence (commitMax f raw))
     \<and> rounded_bound raw (minConfidenceLt (commit ef raw))
     \<and> maxConfidence (commitMin f raw) = maxConfidence f
     \<and> minConfidence (commitMax f raw) = minConfidence f"
proof (cases "raw = []")
  case True
  then show ?thesis
    by (simp add: commitMin_fields commitMax_fields commit_field rounded_bound_def)
next
  case False
  assume "number_input_value raw"
  with False have "valid_floating_point_number raw"
    by (simp add: number_input_value_def)
  from Number_valid [OF this] obtain v where "Number raw = to_double v"
    by blast
  then have "Number raw \<noteq> NaN"
    by (simp add: to_double_not_NaN)
  from clamp_rounded_bound [OF False this] False show ?thesis
    by (simp add: commitMin_fields commitMax_fields commit_field)
qed

theorem commit_confidence_in_range_witness:
  "number_input_value ''0.285''
   \<and> rounded_bound ''0.285'' (minConfidence (commitMin DEFAULT_TRACE_FILTERS ''0.285''))
   \<and> Number ''0.285'' = Fin (5134103575202365 / 2 ^ 54)
   \<and> minConfidence (commitMin DEFAULT_TRACE_FILTERS ''0.285'') = Some (to_double (28 / 100))
   \<and> to_double (28 / 100) = Fin (1261007895663739 / 2 ^ 52)
   \<and> maxConfidence (commitMax DEFAULT_TRACE_FILTERS ''7'') = Some (Fin 1)
   \<and> minConfidence (commitMin DEFAULT_TRACE_FILTERS ''-3'') = Some (Fin 0)
   \<and> minConfidenceLt (commit \<lparr>minConfidenceLt = None\<rparr> ''5e-1'') = Some (Fin (1 / 2))"
proof -
  have "''0.285'' = [] @ ''0'' @ ''.285'' @ []"
    by simp
  moreover have "decimal_digits ''0''" "decimal_digits ''285''"
    by (simp_all add: decimal_digits_def)
  ultimately have "valid_floating_point_number ''0.285''"
    unfolding valid_floating_point_number_def by blast
  then have inp: "number_input_value ''0.285''"
    by (simp add: number_input_value_def)
  have n: "Number ''0.285'' = Fin (5134103575202365 / 2 ^ 54)"
    by code_simp
  have d: "to_double (28 / 100) = Fin (1261007895663739 / 2 ^ 52)"
    by code_simp
  have v1: "minConfidence (commitMin DEFAULT_TRACE_FILTERS ''0.285'')
      = Some (Fin (1261007895663739 / 2 ^ 52))"
    by code_simp
  have v2: "maxConfidence (commitMax DEFAULT_TRACE_FILTERS ''7'') = Some (Fin 1)"
    by code_simp
  have v3: "minConfidence (commitMin DEFAULT_TRACE_FILTERS ''-3'') = Some (Fin 0)"
    by code_simp
  have v4: "minConfidenceLt (commit \<lparr>minConfidenceLt = None\<rparr> ''5e-1'') = Some (Fin (1 / 2))"
    by code_simp
  from commit_confidence_in_range [OF inp, of DEFAULT_TRACE_FILTERS]
  have "rounded_bound ''0.285'' (minConfidence (commitMin DEFAULT_TRACE_FILTERS ''0.285''))"
    by simp
  with inp n d v1 v2 v3 v4 show ?thesis
    by (simp only: simp_thms)
qed


section \<open>The calendar\<close>

text \<open>
  Facts of the calendar functions: the day number of 1 January advances by the length of
  the year, so stepping from 1970 finds the year that holds a day; stepping from January
  finds the month; and \<open>MakeDay\<close> inverts \<open>civil_from_days\<close>.
\<close>

lemma div_succ:
  fixes a k :: int
  assumes "0 < k"
  shows "(a + 1) div k = a div k + (if (a + 1) mod k = 0 then 1 else 0)"
proof -
  define q r where "q = a div k" and "r = a mod k"
  have a: "a = k * q + r" and r: "0 \<le> r" "r < k"
    using assms by (simp_all add: q_def r_def)
  show ?thesis
  proof (cases "r + 1 = k")
    case True
    then have e: "a + 1 = k * (q + 1) + 0"
      using a by (simp add: algebra_simps)
    have "(a + 1) div k = q + 1"
      using assms by (subst e) simp
    moreover have "(a + 1) mod k = 0"
      by (subst e) simp
    ultimately show ?thesis
      by (simp add: q_def)
  next
    case False
    with r have lt: "r + 1 < k" by simp
    have e: "a + 1 = k * q + (r + 1)"
      using a by simp
    have "(a + 1) div k = q"
      using r lt by (subst e) (simp add: div_pos_pos_trivial)
    moreover have "(a + 1) mod k = r + 1"
      using r lt by (subst e) (simp add: mod_pos_pos_trivial)
    ultimately show ?thesis
      using r by (simp add: q_def)
  qed
qed

lemma mod_shift: "(y - k * c) mod k = y mod k" for y k c :: int
proof -
  have "y - k * c = y + k * (- c)" by simp
  then show ?thesis by (simp only: mod_mult_self2)
qed

lemma div4_step: "(y - 1968) div 4 = (y - 1969) div 4 + (if y mod 4 = 0 then 1 else 0)"
  for y :: int
  using div_succ [of 4 "y - 1969"] mod_shift [of y 4 492] by simp

lemma div100_step: "(y - 1900) div 100 = (y - 1901) div 100 + (if y mod 100 = 0 then 1 else 0)"
  for y :: int
  using div_succ [of 100 "y - 1901"] mod_shift [of y 100 19] by simp

lemma div400_step: "(y - 1600) div 400 = (y - 1601) div 400 + (if y mod 400 = 0 then 1 else 0)"
  for y :: int
  using div_succ [of 400 "y - 1601"] mod_shift [of y 400 4] by simp

lemma mod400_100: "y mod 400 = 0 \<Longrightarrow> y mod 100 = 0" for y :: int
  using mod_mod_cancel [of 100 400 y] by simp

lemma mod100_4: "y mod 100 = 0 \<Longrightarrow> y mod 4 = 0" for y :: int
  using mod_mod_cancel [of 4 100 y] by simp

lemma DaysInYear_cases:
  "DaysInYear y = 365 + (if y mod 4 = 0 then 1 else 0)
      - (if y mod 100 = 0 then 1 else 0) + (if y mod 400 = 0 then 1 else 0)"
proof -
  consider (a) "y mod 400 = 0" | (b) "y mod 400 \<noteq> 0" "y mod 100 = 0"
    | (c) "y mod 100 \<noteq> 0" "y mod 4 = 0" | (d) "y mod 4 \<noteq> 0"
    by blast
  then show ?thesis
  proof cases
    case a
    from a mod400_100 [OF a] mod100_4 [OF mod400_100 [OF a]] show ?thesis
      by (simp only: DaysInYear_def leap_year_def) simp
  next
    case b
    from b mod100_4 [OF b(2)] show ?thesis
      by (simp only: DaysInYear_def leap_year_def) simp
  next
    case c
    from c(1) have "y mod 400 \<noteq> 0"
      by (rule contrapos_nn) (rule mod400_100)
    with c show ?thesis
      by (simp only: DaysInYear_def leap_year_def) simp
  next
    case d
    from d have h100: "y mod 100 \<noteq> 0"
      by (rule contrapos_nn) (rule mod100_4)
    then have "y mod 400 \<noteq> 0"
      by (rule contrapos_nn) (rule mod400_100)
    with d h100 show ?thesis
      by (simp only: DaysInYear_def leap_year_def) simp
  qed
qed

lemma DayFromYear_step: "DayFromYear (y + 1) = DayFromYear y + DaysInYear y"
proof -
  have a: "y + 1 - 1969 = y - 1968" "y + 1 - 1901 = y - 1900" "y + 1 - 1601 = y - 1600"
    by simp_all
  show ?thesis
    unfolding DayFromYear_def a div4_step div100_step div400_step DaysInYear_cases
    by (simp add: algebra_simps)
qed

lemma DayFromYear_1970: "DayFromYear 1970 = 0"
  by (simp add: DayFromYear_def)

lemma DaysInYear_pos: "365 \<le> DaysInYear y"
  by (simp add: DaysInYear_def)

lemma DayFromYear_mono: "y \<le> z \<Longrightarrow> DayFromYear y \<le> DayFromYear z"
proof (induction z rule: int_ge_induct)
  case base
  show ?case by simp
next
  case (step i)
  with DayFromYear_step [of i] DaysInYear_pos [of i] show ?case by simp
qed

lemma year_from_inv:
  "year_from y r = (y', r') \<Longrightarrow>
     DayFromYear y + r = DayFromYear y' + r' \<and> 0 \<le> r' \<and> r' < DaysInYear y'"
proof (induction y r rule: year_from.induct)
  case (1 y r)
  show ?case
  proof (cases "r < 0")
    case True
    with "1.prems" have "year_from (y - 1) (r + DaysInYear (y - 1)) = (y', r')"
      by (simp add: year_from.simps [of y r])
    from "1.IH"(1) [OF True this] DayFromYear_step [of "y - 1"] show ?thesis
      by simp
  next
    case False
    show ?thesis
    proof (cases "r < DaysInYear y")
      case True
      with False "1.prems" show ?thesis
        by (simp add: year_from.simps [of y r])
    next
      case big: False
      with False "1.prems" have "year_from (y + 1) (r - DaysInYear y) = (y', r')"
        by (simp add: year_from.simps [of y r])
      from "1.IH"(2) [OF False big this] DayFromYear_step [of y] show ?thesis
        by simp
    qed
  qed
qed

lemma DaysBeforeMonth_1: "DaysBeforeMonth y 1 = 0"
  by (simp add: DaysBeforeMonth_def)

lemma DaysBeforeMonth_step:
  "1 \<le> m \<Longrightarrow> DaysBeforeMonth y (m + 1) = DaysBeforeMonth y m + DaysInMonth y m"
  by (simp add: DaysBeforeMonth_def upto_rec2 [of 1 m])

lemma DaysBeforeMonth_13: "DaysBeforeMonth y 13 = DaysInYear y"
  by (simp add: DaysBeforeMonth_def upto.simps [of 1 12] DaysInMonth_def DaysInYear_def)

lemma DaysInMonth_pos: "28 \<le> DaysInMonth y m"
  by (simp add: DaysInMonth_def)

lemma month_from_inv:
  "month_from y m r = (m', r') \<Longrightarrow> 1 \<le> m \<Longrightarrow> m \<le> 12 \<Longrightarrow> 0 \<le> r \<Longrightarrow>
   DaysBeforeMonth y m + r < DaysInYear y \<Longrightarrow>
     DaysBeforeMonth y m + r = DaysBeforeMonth y m' + r' \<and> 0 \<le> r' \<and> r' < DaysInMonth y m'
     \<and> m \<le> m' \<and> m' \<le> 12"
proof (induction y m r rule: month_from.induct)
  case (1 y m r)
  show ?case
  proof (cases "r < DaysInMonth y m")
    case True
    with "1.prems" show ?thesis
      by (simp add: month_from.simps [of y m r])
  next
    case False
    with "1.prems"(1) have rec: "month_from y (m + 1) (r - DaysInMonth y m) = (m', r')"
      by (simp add: month_from.simps [of y m r])
    have step: "DaysBeforeMonth y (m + 1) = DaysBeforeMonth y m + DaysInMonth y m"
      using "1.prems"(2) by (rule DaysBeforeMonth_step)
    have "m \<noteq> 12"
    proof
      assume "m = 12"
      with step have "DaysBeforeMonth y 12 + DaysInMonth y 12 = DaysInYear y"
        by (simp add: DaysBeforeMonth_13)
      with False "1.prems"(5) \<open>m = 12\<close> show False
        by simp
    qed
    with "1.prems"(3) have m: "m + 1 \<le> 12" by simp
    have r: "0 \<le> r - DaysInMonth y m"
      using False by simp
    have bound: "DaysBeforeMonth y (m + 1) + (r - DaysInMonth y m) < DaysInYear y"
      using step "1.prems"(5) by simp
    from "1.IH" [OF False rec _ m r bound] "1.prems"(2) step show ?thesis
      by simp
  qed
qed

lemma civil_from_days_inv:
  assumes "civil_from_days n = (y, m, d)"
  shows "MakeDay y m d = n \<and> 1 \<le> m \<and> m \<le> 12 \<and> 1 \<le> d \<and> d \<le> DaysInMonth y m
         \<and> DayFromYear y \<le> n \<and> n < DayFromYear (y + 1)"
proof -
  obtain y0 doy where yf: "year_from 1970 n = (y0, doy)"
    by (cases "year_from 1970 n")
  obtain m0 r where mf: "month_from y0 1 doy = (m0, r)"
    by (cases "month_from y0 1 doy")
  from assms yf mf have eq: "y = y0" "m = m0" "d = r + 1"
    by (simp_all add: civil_from_days_def)
  from year_from_inv [OF yf]
  have y: "n = DayFromYear y0 + doy" "0 \<le> doy" "doy < DaysInYear y0"
    by (simp_all add: DayFromYear_1970)
  from month_from_inv [OF mf _ _ y(2)] y(3)
  have m: "doy = DaysBeforeMonth y0 m0 + r" "0 \<le> r" "r < DaysInMonth y0 m0" "1 \<le> m0" "m0 \<le> 12"
    by (simp_all add: DaysBeforeMonth_1)
  from y m eq DayFromYear_step [of y0] show ?thesis
    by (simp add: MakeDay_def)
qed

lemma year_in_range:
  assumes "civil_from_days n = (y, m, d)" and "0 \<le> n" and "n < 2932897"
  shows "1970 \<le> y \<and> y \<le> 9999"
proof -
  from civil_from_days_inv [OF assms(1)]
  have lo: "DayFromYear y \<le> n" and hi: "n < DayFromYear (y + 1)"
    by simp_all
  have "\<not> y < 1970"
  proof
    assume "y < 1970"
    then have "DayFromYear (y + 1) \<le> DayFromYear 1970"
      by (intro DayFromYear_mono) simp
    with hi assms(2) show False
      by (simp add: DayFromYear_1970)
  qed
  moreover have "\<not> 10000 \<le> y"
  proof
    assume "10000 \<le> y"
    then have "DayFromYear 10000 \<le> DayFromYear y"
      by (rule DayFromYear_mono)
    moreover have "DayFromYear 10000 = 2932897"
      by (simp add: DayFromYear_def)
    ultimately show False
      using lo assms(3) by simp
  qed
  ultimately show ?thesis
    by simp
qed

lemma digit_of_digit_char: "k < 10 \<Longrightarrow> digit_of (digit_char k) = Some k"
proof -
  assume "k < 10"
  then have "k \<in> {0, 1, 2, 3, 4, 5, 6, 7, 8, 9}"
    by auto
  then show ?thesis
    by (auto simp add: digit_of_def digit_char_def)
qed

lemma digits_acc_append:
  "digits_acc b acc (xs @ ys) =
     (case digits_acc b acc xs of None \<Rightarrow> None | Some a \<Rightarrow> digits_acc b a ys)"
  by (induction xs arbitrary: acc) (auto split: option.splits)

lemma digits_acc_pad:
  "n < 10 ^ w \<Longrightarrow> digits_acc 10 acc (pad_digits w n) = Some (acc * 10 ^ w + n)"
proof (induction w arbitrary: n)
  case 0
  then show ?case by simp
next
  case (Suc w)
  from Suc.prems have "n div 10 < 10 ^ w"
    by (simp add: less_mult_imp_div_less mult.commute)
  from Suc.IH [OF this]
  have "digits_acc 10 acc (pad_digits w (n div 10)) = Some (acc * 10 ^ w + n div 10)" .
  moreover have "digit_of (digit_char (n mod 10)) = Some (n mod 10)"
    by (rule digit_of_digit_char) simp
  moreover have "(acc * 10 ^ w + n div 10) * 10 + n mod 10 = acc * 10 ^ Suc w + n"
    by (simp add: algebra_simps)
  ultimately show ?case
    by (simp add: digits_acc_append)
qed

lemma length_pad_digits: "length (pad_digits w n) = w"
  by (induction w arbitrary: n) simp_all

lemma digits_value_pad:
  "0 < w \<Longrightarrow> n < 10 ^ w \<Longrightarrow> digits_value 10 (pad_digits w n) = Some n"
  using digits_acc_pad [of n w 0] length_pad_digits [of w n]
  by (auto simp add: digits_value_def)

lemma DaysInMonth_le: "DaysInMonth y m \<le> 31"
  by (simp add: DaysInMonth_def)

lemma parseDate_format:
  assumes "0 \<le> y" "y \<le> 9999" "1 \<le> m" "m \<le> 12" "1 \<le> d" "d \<le> DaysInMonth y m"
  shows "parseDate (pad_digits 4 (nat y) @ ''-'' @ pad_digits 2 (nat m) @ ''-''
            @ pad_digits 2 (nat d))
         = Fin (of_int (MakeDay y m d * msPerDay))"
proof -
  define A B C where "A = pad_digits 4 (nat y)" and "B = pad_digits 2 (nat m)"
    and "C = pad_digits 2 (nat d)"
  have len: "length A = 4" "length B = 2" "length C = 2"
    by (simp_all add: A_def B_def C_def length_pad_digits)
  have d31: "d \<le> 31"
    using assms(6) DaysInMonth_le [of y m] by simp
  have vals: "digits_value 10 A = Some (nat y)" "digits_value 10 B = Some (nat m)"
    "digits_value 10 C = Some (nat d)"
    using assms d31 by (simp_all add: A_def B_def C_def digits_value_pad)
  define S where "S = A @ ''-'' @ B @ ''-'' @ C"
  have shape: "length S = 10" "S ! 4 = CHR ''-''" "S ! 7 = CHR ''-''"
    "take 4 S = A" "take 2 (drop 5 S) = B" "drop 8 S = C"
    using len by (simp_all add: S_def nth_append)
  have nats: "nat m \<le> 12" "Suc 0 \<le> nat m" "Suc 0 \<le> nat d"
    using assms by linarith+
  have "parseDate S = Fin (of_int (MakeDay y m d * msPerDay))"
    using assms nats by (simp add: parseDate_def shape vals)
  then show ?thesis
    by (simp add: S_def A_def B_def C_def)
qed

lemma toISODate_parse:
  assumes "0 \<le> Day t" and "Day t < 2932897"
  shows "parseDate (toISODate t) = Fin (of_int (Day t * msPerDay)) \<and> toISODate t \<noteq> []"
proof -
  obtain y m d where c: "civil_from_days (Day t) = (y, m, d)"
    by (cases "civil_from_days (Day t)")
  from civil_from_days_inv [OF c]
  have inv: "MakeDay y m d = Day t" "1 \<le> m" "m \<le> 12" "1 \<le> d" "d \<le> DaysInMonth y m"
    by simp_all
  from year_in_range [OF c assms] have yr: "0 \<le> y" "y \<le> 9999"
    by simp_all
  have len: "length (pad_digits 4 (nat y) @ ''-'' @ pad_digits 2 (nat m) @ ''-''
      @ pad_digits 2 (nat d)) = 10"
    by (simp add: length_pad_digits)
  have iso: "toISODate t = pad_digits 4 (nat y) @ ''-'' @ pad_digits 2 (nat m) @ ''-''
      @ pad_digits 2 (nat d)"
    using c yr len by (simp add: toISODate_def)
  from parseDate_format [OF yr inv(2-5)] inv(1) iso len show ?thesis
    by auto
qed

lemma Day_shift: "Day (t - n * msPerDay) = Day t - n"
proof -
  have "t - n * msPerDay = t + msPerDay * (- n)"
    by simp
  then show ?thesis
    by (simp only: Day_def div_mult_self2 [of msPerDay t "- n"]) (simp add: msPerDay_def)
qed

lemma Day_TimeWithinDay: "Day t * msPerDay + TimeWithinDay t = t"
  by (simp add: Day_def TimeWithinDay_def)

lemma setDate_getDate:
  "setDate LocalTZA tv (getDate LocalTZA tv - n)
     = UTC LocalTZA (LocalTime LocalTZA tv - n * msPerDay)"
proof -
  define t where "t = LocalTime LocalTZA tv"
  obtain y m d where c: "civil_from_days (Day t) = (y, m, d)"
    by (cases "civil_from_days (Day t)")
  from civil_from_days_inv [OF c] have "MakeDay y m d = Day t"
    by simp
  then have "MakeDay y m (d - n) = Day t - n"
    by (simp add: MakeDay_def)
  then have "MakeDay y m (d - n) * msPerDay + TimeWithinDay t
      = (Day t * msPerDay + TimeWithinDay t) - n * msPerDay"
    by (simp add: left_diff_distrib)
  also have "\<dots> = t - n * msPerDay"
    by (simp only: Day_TimeWithinDay)
  finally have "MakeDay y m (d - n) * msPerDay + TimeWithinDay t = t - n * msPerDay" .
  with c show ?thesis
    by (simp add: setDate_def getDate_def t_def [symmetric] Let_def)
qed

lemma preset_days: "p \<in> set DATE_PRESETS \<Longrightarrow> 0 \<le> days p \<and> days p \<le> 365"
  by (auto simp add: DATE_PRESETS_def)

lemma preset_find:
  "p \<in> set DATE_PRESETS \<Longrightarrow>
     map_option label (List.find (\<lambda>q. days q = days p) DATE_PRESETS) = Some (label p)"
  by (auto simp add: DATE_PRESETS_def)

lemma activeDatePreset_days_apart:
  assumes p: "p \<in> set DATE_PRESETS"
    and s: "parseDate (startTime f) = Fin (of_int ((e - days p) * msPerDay))" "startTime f \<noteq> []"
    and e: "parseDate (endTime f) = Fin (of_int (e * msPerDay))" "endTime f \<noteq> []"
  shows "activeDatePreset f = Some (label p)"
proof -
  have "real_of_int (e * msPerDay) - real_of_int ((e - days p) * msPerDay)
      = real_of_int (days p) * 86400000"
    by (simp add: msPerDay_def algebra_simps)
  then have diff: "Math_round (js_scale (1 / (1000 * 60 * 60 * 24))
      (js_sub (parseDate (endTime f)) (parseDate (startTime f)))) = Fin (of_int (days p))"
    by (simp add: s e js_scale_def Math_round_def)
  have "(\<lambda>q. Fin (real_of_int (days q)) = Fin (real_of_int (days p)))
      = (\<lambda>q. days q = days p)"
    by auto
  with diff s e preset_find [OF p] show ?thesis
    by (simp add: activeDatePreset_def Let_def)
qed

lemma applyPreset_roundtrip:
  assumes p: "p \<in> set DATE_PRESETS"
    and lo: "365 * msPerDay \<le> now" and hi: "now < 253402300800000"
    and tz: "days p = 0 \<or>
      LocalTZA (LocalTime LocalTZA now - days p * msPerDay) False = LocalTZA now True"
  shows "startTime (applyPreset LocalTZA now f (days p)) \<noteq> []
    \<and> endTime (applyPreset LocalTZA now f (days p)) \<noteq> []
    \<and> activeDatePreset (applyPreset LocalTZA now f (days p)) = Some (label p)"
proof -
  from lo have d_lo: "365 \<le> Day now"
    by (simp add: Day_def msPerDay_def)
  from hi have d_hi: "Day now < 2932897"
    by (simp add: Day_def msPerDay_def)
  from preset_days [OF p] have n: "0 \<le> days p" "days p \<le> 365"
    by simp_all
  have end_ok: "parseDate (toISODate now) = Fin (of_int (Day now * msPerDay))"
    "toISODate now \<noteq> []"
    using toISODate_parse [of now] d_lo d_hi by simp_all
  have start: "startTime (applyPreset LocalTZA now f (days p))
      = toISODate (now - days p * msPerDay)"
    and "end": "endTime (applyPreset LocalTZA now f (days p)) = toISODate now"
  proof -
    show "endTime (applyPreset LocalTZA now f (days p)) = toISODate now"
      by (simp add: applyPreset_def set_filters_def no_patch_def Let_def)
    show "startTime (applyPreset LocalTZA now f (days p)) = toISODate (now - days p * msPerDay)"
    proof (cases "days p = 0")
      case True
      then show ?thesis
        by (simp add: applyPreset_def set_filters_def no_patch_def Let_def)
    next
      case False
      with tz have "UTC LocalTZA (LocalTime LocalTZA now - days p * msPerDay)
          = now - days p * msPerDay"
        by (simp add: UTC_def) (simp add: LocalTime_def)
      with False show ?thesis
        by (simp add: applyPreset_def set_filters_def no_patch_def Let_def setDate_getDate)
    qed
  qed
  have "0 \<le> Day (now - days p * msPerDay)" "Day (now - days p * msPerDay) < 2932897"
    using d_lo d_hi n by (simp_all add: Day_shift)
  from toISODate_parse [OF this]
  have start_ok: "parseDate (toISODate (now - days p * msPerDay))
      = Fin (of_int ((Day now - days p) * msPerDay))"
    "toISODate (now - days p * msPerDay) \<noteq> []"
    by (simp_all add: Day_shift)
  from activeDatePreset_days_apart [OF p, of "applyPreset LocalTZA now f (days p)" "Day now"]
    start "end" start_ok end_ok
  show ?thesis
    by simp
qed


section \<open>Applying a date preset\<close>

text \<open>
  Where the round trip holds: for a preset of the list, a clock between 1971 and the end
  of the year 9999, and a time zone whose offset at the local start time is its offset
  now (always so for \<^verbatim>\<open>Today\<close>), both times are set and the active preset is the one
  applied.
\<close>

lemma applyPreset_roundtrip_fixed_zone:
  assumes "p \<in> set DATE_PRESETS" and "365 * msPerDay \<le> now" and "now < 253402300800000"
  shows "activeDatePreset (applyPreset (fixed_zone offset) now f (days p)) = Some (label p)"
  using applyPreset_roundtrip [OF assms, of "fixed_zone offset" f]
  by (simp add: fixed_zone_def)

lemma last_week_preset: "\<lparr>label = ''Last week'', days = 7\<rparr> \<in> set DATE_PRESETS"
  by (simp add: DATE_PRESETS_def)

lemma last_week_fixed_zone:
  "activeDatePreset (applyPreset (fixed_zone 7200000) 1712014200000 DEFAULT_TRACE_FILTERS 7)
     = Some ''Last week''"
  using applyPreset_roundtrip_fixed_zone [OF last_week_preset, of 1712014200000 7200000
      DEFAULT_TRACE_FILTERS]
  by (simp add: msPerDay_def)

text \<open>
  Claim C10. Applying a preset is to make that preset the active one. With the clock at
  2024-04-01T23:30:00Z in the zone \<open>cet_2024\<close> (01:30 local time on 2 April, two days
  after the change to summer time) \<^verbatim>\<open>applyPreset(7)\<close>, the preset \<^verbatim>\<open>Last week\<close>, sets the
  start to 2024-03-26 and the end to 2024-04-01: local time is set back seven days, to
  01:30 on 26 March, where the offset is one hour, and the dates are then taken in UTC.
  The two dates are six days apart, no preset has six days, and the active preset is
  \<^verbatim>\<open>null\<close>.
\<close>

theorem applyPreset_last_week_not_active:
  "\<lparr>label = ''Last week'', days = 7\<rparr> \<in> set DATE_PRESETS
   \<and> startTime (applyPreset cet_2024 1712014200000 DEFAULT_TRACE_FILTERS 7) = ''2024-03-26''
   \<and> endTime (applyPreset cet_2024 1712014200000 DEFAULT_TRACE_FILTERS 7) = ''2024-04-01''
   \<and> activeDatePreset (applyPreset cet_2024 1712014200000 DEFAULT_TRACE_FILTERS 7) = None
   \<and> activeDatePreset (applyPreset cet_2024 1712014200000 DEFAULT_TRACE_FILTERS 7)
        \<noteq> Some ''Last week''"
proof -
  have s: "startTime (applyPreset cet_2024 1712014200000 DEFAULT_TRACE_FILTERS 7)
      = ''2024-03-26''"
    by code_simp
  have e: "endTime (applyPreset cet_2024 1712014200000 DEFAULT_TRACE_FILTERS 7)
      = ''2024-04-01''"
    by code_simp
  have a: "activeDatePreset (applyPreset cet_2024 1712014200000 DEFAULT_TRACE_FILTERS 7)
      = None"
    by code_simp
  from last_week_preset s e a show ?thesis
    by simp
qed

end
